theory Spec2Isabelle
  imports Main "HOL-Library.Sublist" "HOL-Library.Word"
begin

section \<open>Errors\<close>

text \<open>
  Every exception the modelled code can meet is a value. \<open>KeyError k\<close> is Python's
  error for a missing dict key, \<open>ValueError\<close> the one of \<open>int(s)\<close>,
  \<open>OperationalError\<close> stands for an error raised by the SQLite engine,
  \<open>DriverError msg\<close> for an exception of the browser driver with message \<open>msg\<close>, and
  \<open>Failure msg\<close> for a plain \<open>Exception(msg)\<close> (of the scraper itself or of the
  classification service).
\<close>

datatype error =
    KeyError string
  | ValueError string
  | OperationalError string
  | DriverError string
  | Failure string

fun err_msg :: "error \<Rightarrow> string" where
  "err_msg (KeyError k) = k"
| "err_msg (ValueError m) = m"
| "err_msg (OperationalError m) = m"
| "err_msg (DriverError m) = m"
| "err_msg (Failure m) = m"

section \<open>The persistent store (class IsolatedDatabaseManager)\<close>

text \<open>A tender as the scraper passes it around: a Python dict from field names to strings.\<close>

type_synonym tender = "string \<rightharpoonup> string"

text \<open>One row of table \<open>tenders\<close>. Timestamps are seconds on a clock read by the caller.\<close>

record tender_row =
  row_id :: nat
  portal_id :: string
  identity_hash :: string
  portal_source :: string
  s_no :: string
  e_published_date :: string
  closing_date :: string
  opening_date :: string
  title :: string
  org_chain :: string
  details_url :: string
  work_description :: string
  run_date :: string
  phase1_status :: string
  phase2_status :: string
  ai_filtered :: int
  created_at :: nat
  updated_at :: nat

record failed_url =
  fu_portal_id :: string
  fu_tender_id :: nat
  fu_details_url :: string
  fu_failure_reason :: string

text \<open>A row of \<open>portal_execution_log\<close> (the columns used below).\<close>

record execution =
  ex_portal_id :: string
  ex_status :: string
  ex_error_message :: "string option"

text \<open>
  The database file: the committed contents of its tables. \<open>scraping_metadata\<close> has
  the constraint UNIQUE(portal_id, key), so it is a map from that pair.
\<close>

record store =
  tenders :: "tender_row list"
  scraping_metadata :: "(string \<times> string) \<rightharpoonup> string"
  failed_urls :: "failed_url list"
  portal_execution_log :: "execution list"

definition set_metadata :: "string \<Rightarrow> string \<Rightarrow> string \<Rightarrow> store \<Rightarrow> store" where
  "set_metadata pid k v st = st\<lparr>scraping_metadata := (scraping_metadata st)((pid, k) \<mapsto> v)\<rparr>"

definition get_metadata :: "string \<Rightarrow> string \<Rightarrow> store \<Rightarrow> string option" where
  "get_metadata pid k st = scraping_metadata st (pid, k)"

text \<open>Python truthiness of an \<open>Optional[str]\<close>: \<open>None\<close> and the empty string are false.\<close>

definition truthy :: "string option \<Rightarrow> bool" where
  "truthy v = (case v of None \<Rightarrow> False | Some s \<Rightarrow> s \<noteq> [])"

subsection \<open>upsert_tenders_batch\<close>

text \<open>
  The keys the loop body reads with \<open>tender[...]\<close>, in the order it reads them:
  the SELECT's parameter first, then the parameters of the UPDATE or the INSERT
  (both name the same keys in the same order).
\<close>

definition required_keys :: "string list" where
  "required_keys =
    [''Identity Hash'', ''Portal Source'', ''S.No.'', ''e-Published Date'',
     ''Bid Submission Closing Date'', ''Tender Opening Date'',
     ''Title and Ref.No./Tender ID'', ''Organisation Chain'', ''Details URL'',
     ''Run Date'']"

definition missing_key :: "tender \<Rightarrow> string option" where
  "missing_key t = find (\<lambda>k. t k = None) required_keys"

text \<open>\<open>tender.get(k, '')\<close>; also the value of \<open>tender[k]\<close> once the key is known to be there.\<close>

definition get_or_empty :: "tender \<Rightarrow> string \<Rightarrow> string" where
  "get_or_empty t k = (case t k of None \<Rightarrow> [] | Some v \<Rightarrow> v)"

definition matches :: "string \<Rightarrow> string \<Rightarrow> tender_row \<Rightarrow> bool" where
  "matches pid h r = (portal_id r = pid \<and> identity_hash r = h)"

text \<open>The UPDATE statement's SET clause.\<close>

definition update_row :: "nat \<Rightarrow> tender \<Rightarrow> tender_row \<Rightarrow> tender_row" where
  "update_row now t r = r\<lparr>
     portal_source := get_or_empty t ''Portal Source'',
     s_no := get_or_empty t ''S.No.'',
     e_published_date := get_or_empty t ''e-Published Date'',
     closing_date := get_or_empty t ''Bid Submission Closing Date'',
     opening_date := get_or_empty t ''Tender Opening Date'',
     title := get_or_empty t ''Title and Ref.No./Tender ID'',
     org_chain := get_or_empty t ''Organisation Chain'',
     details_url := get_or_empty t ''Details URL'',
     run_date := get_or_empty t ''Run Date'',
     updated_at := now\<rparr>"

text \<open>AUTOINCREMENT: one more than the largest id in the table (rows are never deleted).\<close>

definition next_id :: "tender_row list \<Rightarrow> nat" where
  "next_id rows = Suc (foldr max (map row_id rows) 0)"

text \<open>The INSERT statement; the columns it leaves out take the schema's defaults.\<close>

definition insert_row :: "string \<Rightarrow> nat \<Rightarrow> tender \<Rightarrow> tender_row list \<Rightarrow> tender_row" where
  "insert_row pid now t rows = \<lparr>
     row_id = next_id rows,
     portal_id = pid,
     identity_hash = get_or_empty t ''Identity Hash'',
     portal_source = get_or_empty t ''Portal Source'',
     s_no = get_or_empty t ''S.No.'',
     e_published_date = get_or_empty t ''e-Published Date'',
     closing_date = get_or_empty t ''Bid Submission Closing Date'',
     opening_date = get_or_empty t ''Tender Opening Date'',
     title = get_or_empty t ''Title and Ref.No./Tender ID'',
     org_chain = get_or_empty t ''Organisation Chain'',
     details_url = get_or_empty t ''Details URL'',
     work_description = get_or_empty t ''Work Description'',
     run_date = get_or_empty t ''Run Date'',
     phase1_status = ''extracted'',
     phase2_status = ''pending'',
     ai_filtered = 0,
     created_at = now,
     updated_at = now\<rparr>"

text \<open>
  One pass of the loop body on the connection's uncommitted rows. \<open>engine_fails\<close> says
  that SQLite raises while executing this tender's statements. The result is the new
  rows and whether the tender was inserted (\<open>True\<close>) or updated (\<open>False\<close>).
\<close>

definition upsert_one ::
  "string \<Rightarrow> nat \<Rightarrow> bool \<Rightarrow> tender \<Rightarrow> tender_row list \<Rightarrow> error + (tender_row list \<times> bool)" where
  "upsert_one pid now engine_fails t rows =
     (case t ''Identity Hash'' of
        None \<Rightarrow> Inl (KeyError ''Identity Hash'')
      | Some h \<Rightarrow>
          if engine_fails then Inl (OperationalError ''database error'')
          else (case missing_key t of
                  Some k \<Rightarrow> Inl (KeyError k)
                | None \<Rightarrow>
                    if find (matches pid h) rows \<noteq> None
                    then Inr (map (\<lambda>r. if matches pid h r then update_row now t r else r) rows, False)
                    else Inr (rows @ [insert_row pid now t rows], True)))"

text \<open>
  The \<open>for tender in tenders\<close> loop. \<open>fault\<close> is the position in the batch (from 0) at
  which the engine raises, if any; position \<open>length tenders\<close> is the commit.
\<close>

fun upsert_loop ::
  "string \<Rightarrow> nat \<Rightarrow> nat option \<Rightarrow> nat \<Rightarrow> tender list \<Rightarrow> tender_row list \<Rightarrow> nat \<Rightarrow> nat
   \<Rightarrow> error + (tender_row list \<times> nat \<times> nat)" where
  "upsert_loop pid now fault i [] rows inserted updated = Inr (rows, inserted, updated)"
| "upsert_loop pid now fault i (t # ts) rows inserted updated =
     (case upsert_one pid now (fault = Some i) t rows of
        Inl e \<Rightarrow> Inl e
      | Inr (rows', was_insert) \<Rightarrow>
          if was_insert then upsert_loop pid now fault (Suc i) ts rows' (Suc inserted) updated
          else upsert_loop pid now fault (Suc i) ts rows' inserted (Suc updated))"

text \<open>
  A connection: the committed table and the rows as the open transaction sees them.
\<close>

record connection =
  committed :: "tender_row list"
  pending :: "tender_row list"

definition get_connection :: "store \<Rightarrow> connection" where
  "get_connection st = \<lparr>committed = tenders st, pending = tenders st\<rparr>"

definition commit :: "connection \<Rightarrow> connection" where
  "commit c = c\<lparr>committed := pending c\<rparr>"

definition rollback :: "connection \<Rightarrow> connection" where
  "rollback c = c\<lparr>pending := committed c\<rparr>"

text \<open>\<open>conn.close()\<close>: what the database file holds afterwards is what was committed.\<close>

definition close_connection :: "store \<Rightarrow> connection \<Rightarrow> store" where
  "close_connection st c = st\<lparr>tenders := committed c\<rparr>"

text \<open>
  The method: the store after the call, and the \<open>(inserted, updated)\<close> counts or the
  exception re-raised by the \<open>except\<close> branch.
\<close>

definition upsert_tenders_batch ::
  "string \<Rightarrow> nat \<Rightarrow> nat option \<Rightarrow> tender list \<Rightarrow> store \<Rightarrow> store \<times> (error + nat \<times> nat)" where
  "upsert_tenders_batch pid now fault ts st =
     (let conn = get_connection st in
      case upsert_loop pid now fault 0 ts (pending conn) 0 0 of
        Inl e \<Rightarrow> (close_connection st (rollback conn), Inl e)
      | Inr (rows, inserted, updated) \<Rightarrow>
          let conn' = conn\<lparr>pending := rows\<rparr> in
          if fault = Some (length ts)
          then (close_connection st (rollback conn'), Inl (OperationalError ''commit failed''))
          else (close_connection st (commit conn'), Inr (inserted, updated)))"

subsection \<open>Properties of the upsert\<close>

text \<open>The hash a batch entry is looked up under.\<close>

definition tender_hash :: "tender \<Rightarrow> string" where
  "tender_hash t = get_or_empty t ''Identity Hash''"

text \<open>A stored row is hit by a batch when some entry of the batch names its key.\<close>

definition hit :: "string \<Rightarrow> tender list \<Rightarrow> tender_row \<Rightarrow> bool" where
  "hit pid ts r = (\<exists>t \<in> set ts. matches pid (tender_hash t) r)"

text \<open>
  The columns no statement of \<open>upsert_tenders_batch\<close> assigns in an existing row: the
  key, the enrichment text, the phase states and the creation time.
\<close>

definition frame ::
  "tender_row \<Rightarrow> nat \<times> string \<times> string \<times> string \<times> string \<times> string \<times> int \<times> nat" where
  "frame r = (row_id r, portal_id r, identity_hash r, work_description r,
              phase1_status r, phase2_status r, ai_filtered r, created_at r)"

lemma frame_update_row: "frame (update_row now t r) = frame r"
  by (simp add: frame_def update_row_def)

lemma matches_update_row: "matches pid h (update_row now t r) = matches pid h r"
  by (simp add: matches_def update_row_def)

lemma update_row_absorb: "update_row now t' (update_row now t r) = update_row now t' r"
  by (simp add: update_row_def)

lemma find_matches: "(find (matches pid h) rows = None) = (\<not> (\<exists>r \<in> set rows. matches pid h r))"
  by (auto simp: find_None_iff)

lemma find_matches_Some: "find (matches pid h) rows = Some r \<Longrightarrow> \<exists>r \<in> set rows. matches pid h r"
  using find_matches[of pid h rows] by auto

lemma missing_key_hash: "missing_key t = None \<Longrightarrow> t ''Identity Hash'' \<noteq> None"
  by (auto simp: missing_key_def required_keys_def find_None_iff split: if_splits)

lemma upsert_one_Inr:
  assumes "upsert_one pid now ef t rows = Inr (rows', b)"
  shows "missing_key t = None \<and> \<not> ef \<and>
         (if (\<exists>r \<in> set rows. matches pid (tender_hash t) r)
          then \<not> b \<and> rows' = map (\<lambda>r. if matches pid (tender_hash t) r then update_row now t r else r) rows
          else b \<and> rows' = rows @ [insert_row pid now t rows])"
  using assms
  by (auto simp: upsert_one_def tender_hash_def get_or_empty_def find_matches
      dest: find_matches_Some split: option.splits if_splits)

lemma upsert_one_ok:
  assumes "missing_key t = None"
  shows "upsert_one pid now False t rows =
         (if (\<exists>r \<in> set rows. matches pid (tender_hash t) r)
          then Inr (map (\<lambda>r. if matches pid (tender_hash t) r then update_row now t r else r) rows, False)
          else Inr (rows @ [insert_row pid now t rows], True))"
  using assms missing_key_hash[OF assms]
  by (auto simp: upsert_one_def tender_hash_def get_or_empty_def find_matches
      dest: find_matches_Some split: option.splits if_splits)

lemma matches_insert_row:
  "missing_key t = None \<Longrightarrow> matches pid (tender_hash t) (insert_row pid now t rows)"
  by (simp add: matches_def insert_row_def tender_hash_def)

text \<open>
  What a batch does to a row that was there before: a row that is hit becomes the old
  row with the UPDATE's columns taken from an entry of the batch that names it; any
  other row stays as it is.
\<close>

definition row_rel :: "string \<Rightarrow> nat \<Rightarrow> tender list \<Rightarrow> tender_row \<Rightarrow> tender_row \<Rightarrow> bool" where
  "row_rel pid now ts r r' =
     (if hit pid ts r then \<exists>t \<in> set ts. matches pid (tender_hash t) r \<and> r' = update_row now t r
      else r' = r)"

lemma bex_matches_map:
  "(\<exists>r \<in> set (map (\<lambda>r. if P r then update_row now t r else r) rows). matches pid h r)
   = (\<exists>r \<in> set rows. matches pid h r)"
  by (induction rows) (auto simp: matches_update_row)

lemma hit_Nil: "hit pid [] r = False"
  by (simp add: hit_def)

lemma hit_Cons: "hit pid (t # ts) r = (matches pid (tender_hash t) r \<or> hit pid ts r)"
  by (auto simp: hit_def)

lemma hit_update_row: "hit pid ts (update_row now t r) = hit pid ts r"
  by (simp add: hit_def matches_update_row)

lemma row_rel_step:
  assumes "row_rel pid now ts (if matches pid (tender_hash t) r then update_row now t r else r) r'"
  shows "row_rel pid now (t # ts) r r'"
proof (cases "matches pid (tender_hash t) r")
  case True
  with assms have a: "row_rel pid now ts (update_row now t r) r'" by simp
  show ?thesis
  proof (cases "hit pid ts r")
    case h: True
    with a obtain t' where "t' \<in> set ts" "matches pid (tender_hash t') r" "r' = update_row now t' r"
      by (auto simp: row_rel_def hit_update_row matches_update_row update_row_absorb)
    with h show ?thesis unfolding row_rel_def hit_Cons by auto
  next
    case h: False
    with a have "r' = update_row now t r" by (simp add: row_rel_def hit_update_row)
    with True show ?thesis by (auto simp: row_rel_def hit_Cons)
  qed
next
  case False
  with assms show ?thesis by (auto simp: row_rel_def hit_Cons)
qed

lemma upsert_loop_rel:
  assumes "upsert_loop pid now fault i ts rows ins upd = Inr (rows', ins', upd')"
  shows "length rows \<le> length rows' \<and> (\<forall>j < length rows. row_rel pid now ts (rows ! j) (rows' ! j))"
  using assms
proof (induction ts arbitrary: rows i ins upd)
  case Nil
  then show ?case by (simp add: row_rel_def hit_Nil)
next
  case (Cons t ts)
  from Cons.prems obtain rows1 b where
    one: "upsert_one pid now (fault = Some i) t rows = Inr (rows1, b)"
    by (auto split: sum.splits)
  with Cons.prems obtain ins1 upd1 where
    rest: "upsert_loop pid now fault (Suc i) ts rows1 ins1 upd1 = Inr (rows', ins', upd')"
    by (auto split: if_splits)
  from Cons.IH[OF rest] have
    len: "length rows1 \<le> length rows'" and
    rel: "\<And>j. j < length rows1 \<Longrightarrow> row_rel pid now ts (rows1 ! j) (rows' ! j)"
    by auto
  from upsert_one_Inr[OF one] have
    shape: "length rows \<le> length rows1" and
    nth: "\<And>j. j < length rows \<Longrightarrow>
            rows1 ! j = (if matches pid (tender_hash t) (rows ! j) then update_row now t (rows ! j) else rows ! j)"
    by (auto simp: nth_append split: if_splits)
  have "row_rel pid now (t # ts) (rows ! j) (rows' ! j)" if "j < length rows" for j
  proof -
    from that shape have "j < length rows1" by simp
    from rel[OF this] nth[OF that] show ?thesis
      by (intro row_rel_step) simp
  qed
  with len shape show ?case by auto
qed

lemma upsert_loop_present:
  assumes "upsert_loop pid now fault i ts rows ins upd = Inr (rows', ins', upd')"
  shows "(\<forall>t \<in> set ts. missing_key t = None \<and> (\<exists>r \<in> set rows'. matches pid (tender_hash t) r))
         \<and> (\<forall>h. (\<exists>r \<in> set rows. matches pid h r) \<longrightarrow> (\<exists>r \<in> set rows'. matches pid h r))
         \<and> ins' + upd' = ins + upd + length ts"
  using assms
proof (induction ts arbitrary: rows i ins upd)
  case Nil
  then show ?case by simp
next
  case (Cons t ts)
  from Cons.prems obtain rows1 b where
    one: "upsert_one pid now (fault = Some i) t rows = Inr (rows1, b)"
    by (auto split: sum.splits)
  with Cons.prems obtain ins1 upd1 where
    rest: "upsert_loop pid now fault (Suc i) ts rows1 ins1 upd1 = Inr (rows', ins', upd')"
    and cnt: "ins1 + upd1 = Suc (ins + upd)"
    by (auto split: if_splits)
  note ih = Cons.IH[OF rest]
  from upsert_one_Inr[OF one] have mk: "missing_key t = None" by simp
  have keep: "\<exists>r \<in> set rows1. matches pid h r" if "\<exists>r \<in> set rows. matches pid h r" for h
    using upsert_one_Inr[OF one] that
    by (auto simp: bex_matches_map simp del: set_map split: if_splits)
  have here: "\<exists>r \<in> set rows1. matches pid (tender_hash t) r"
    using upsert_one_Inr[OF one] matches_insert_row[OF mk, of pid now rows]
    by (auto simp: bex_matches_map simp del: set_map split: if_splits)
  from ih here have "\<exists>r \<in> set rows'. matches pid (tender_hash t) r" by blast
  moreover from ih keep have "\<forall>h. (\<exists>r \<in> set rows. matches pid h r) \<longrightarrow> (\<exists>r \<in> set rows'. matches pid h r)"
    by blast
  ultimately show ?case using ih mk cnt by auto
qed

lemma upsert_loop_again:
  assumes "\<forall>t \<in> set ts. missing_key t = None \<and> (\<exists>r \<in> set rows. matches pid (tender_hash t) r)"
  shows "\<exists>rows'. upsert_loop pid now None i ts rows ins upd = Inr (rows', ins, upd + length ts)
           \<and> map frame rows' = map frame rows"
  using assms
proof (induction ts arbitrary: rows i upd)
  case Nil
  then show ?case by simp
next
  case (Cons t ts)
  let ?rows1 = "map (\<lambda>r. if matches pid (tender_hash t) r then update_row now t r else r) rows"
  from Cons.prems have mk: "missing_key t = None"
    and pr: "\<exists>r \<in> set rows. matches pid (tender_hash t) r" by auto
  have one: "upsert_one pid now (None = Some i) t rows = Inr (?rows1, False)"
    using upsert_one_ok[OF mk, of pid now rows] pr by simp
  have fr: "map frame ?rows1 = map frame rows"
    by (simp add: frame_update_row)
  have "\<forall>t \<in> set ts. missing_key t = None \<and> (\<exists>r \<in> set ?rows1. matches pid (tender_hash t) r)"
    using Cons.prems by (auto simp: bex_matches_map simp del: set_map)
  from Cons.IH[OF this, of "Suc i" "Suc upd"] obtain rows' where
    "upsert_loop pid now None (Suc i) ts ?rows1 ins (Suc upd) = Inr (rows', ins, Suc upd + length ts)"
    "map frame rows' = map frame ?rows1" by blast
  with one fr show ?case by simp
qed

text \<open>Sample data for the concrete instances below.\<close>

definition example_tender :: "string \<Rightarrow> string \<Rightarrow> tender" where
  "example_tender h sn = map_of
    [(''Identity Hash'', h), (''Portal Source'', ''West Bengal''), (''S.No.'', sn),
     (''e-Published Date'', ''01-Jan-2025''), (''Bid Submission Closing Date'', ''08-Jan-2025''),
     (''Tender Opening Date'', ''09-Jan-2025''), (''Title and Ref.No./Tender ID'', ''Road repair''),
     (''Organisation Chain'', ''PWD''), (''Details URL'', ''https://wbtenders.gov.in/t1''),
     (''Work Description'', []), (''Run Date'', ''2025-01-02'')]"

definition empty_store :: store where
  "empty_store = \<lparr>tenders = [], scraping_metadata = Map.empty, failed_urls = [],
                   portal_execution_log = []\<rparr>"

lemma upsert_batch_Inr:
  assumes "upsert_tenders_batch pid now fault ts st = (st', Inr (ins, upd))"
  shows "upsert_loop pid now fault 0 ts (tenders st) 0 0 = Inr (tenders st', ins, upd)
         \<and> st' = st\<lparr>tenders := tenders st'\<rparr>"
  using assms
  by (auto simp: upsert_tenders_batch_def get_connection_def commit_def rollback_def
      close_connection_def Let_def split: sum.splits if_splits)

lemma upsert_batch_Inl:
  assumes "upsert_tenders_batch pid now fault ts st = (st', Inl e)"
  shows "st' = st"
  using assms
  by (auto simp: upsert_tenders_batch_def get_connection_def commit_def rollback_def
      close_connection_def Let_def split: sum.splits if_splits)

lemma upsert_batch_loop_Inl:
  assumes "upsert_loop pid now fault 0 ts (tenders st) 0 0 = Inl e"
  shows "upsert_tenders_batch pid now fault ts st = (st, Inl e)"
  using assms
  by (simp add: upsert_tenders_batch_def get_connection_def rollback_def close_connection_def)

text \<open>
  Claim C3. \<open>upsert_tenders_batch\<close> is idempotent: when a batch has been applied, applying
  the same batch again (at any later clock value) succeeds, inserts no row and updates one
  row per entry; the table keeps its length, and every row keeps its id, its key and all
  columns outside the overwritten source fields and \<open>updated_at\<close>.
\<close>
theorem upsert_tenders_batch_idempotent:
  assumes "upsert_tenders_batch pid now1 fault ts st = (st1, Inr (ins1, upd1))"
  shows "\<exists>st2. upsert_tenders_batch pid now2 None ts st1 = (st2, Inr (0, length ts))
           \<and> length (tenders st2) = length (tenders st1)
           \<and> map frame (tenders st2) = map frame (tenders st1)"
proof -
  from upsert_batch_Inr[OF assms] have
    "upsert_loop pid now1 fault 0 ts (tenders st) 0 0 = Inr (tenders st1, ins1, upd1)" by simp
  from upsert_loop_present[OF this] have
    "\<forall>t \<in> set ts. missing_key t = None \<and> (\<exists>r \<in> set (tenders st1). matches pid (tender_hash t) r)"
    by simp
  from upsert_loop_again[OF this, of now2 0 0 0] obtain rows' where
    loop: "upsert_loop pid now2 None 0 ts (tenders st1) 0 0 = Inr (rows', 0, length ts)"
    and fr: "map frame rows' = map frame (tenders st1)" by auto
  from fr have "length rows' = length (tenders st1)" by (rule map_eq_imp_length_eq)
  with loop fr show ?thesis
    by (simp add: upsert_tenders_batch_def get_connection_def commit_def close_connection_def)
qed

lemma example_first_pass:
  "upsert_tenders_batch ''WB'' 5 None [example_tender ''h1'' ''1'', example_tender ''h1'' ''2''] empty_store
   = (empty_store\<lparr>tenders := [update_row 5 (example_tender ''h1'' ''2'')
         (insert_row ''WB'' 5 (example_tender ''h1'' ''1'') [])]\<rparr>, Inr (1, 1))"
  by (simp add: upsert_tenders_batch_def get_connection_def commit_def close_connection_def
      empty_store_def upsert_one_def missing_key_def required_keys_def example_tender_def
      matches_def insert_row_def get_or_empty_def update_row_def)

theorem upsert_tenders_batch_idempotent_witness:
  "\<exists>st2. upsert_tenders_batch ''WB'' 9 None [example_tender ''h1'' ''1'', example_tender ''h1'' ''2'']
            (empty_store\<lparr>tenders := [update_row 5 (example_tender ''h1'' ''2'')
               (insert_row ''WB'' 5 (example_tender ''h1'' ''1'') [])]\<rparr>) = (st2, Inr (0, 2))
         \<and> length (tenders st2) = 1"
  using upsert_tenders_batch_idempotent[OF example_first_pass, of 9] by (auto simp: numeral_2_eq_2)

lemma upsert_loop_no_fault:
  assumes "upsert_loop pid now (Some k) i ts rows ins upd = Inr (rows', ins', upd')"
  shows "k < i \<or> i + length ts \<le> k"
  using assms
proof (induction ts arbitrary: rows i ins upd)
  case Nil
  then show ?case by simp linarith
next
  case (Cons t ts)
  from Cons.prems obtain rows1 b where
    one: "upsert_one pid now (Some k = Some i) t rows = Inr (rows1, b)"
    by (auto split: sum.splits)
  with Cons.prems obtain ins1 upd1 where
    rest: "upsert_loop pid now (Some k) (Suc i) ts rows1 ins1 upd1 = Inr (rows', ins', upd')"
    by (auto split: if_splits)
  from upsert_one_Inr[OF one] have "k \<noteq> i" by simp
  with Cons.IH[OF rest] show ?case by auto
qed

text \<open>
  Claim C4. \<open>upsert_tenders_batch\<close> is atomic. If the call raises, the store afterwards is
  the store before the call; if it returns, the committed table is the result of the loop
  over the whole batch, every entry was counted as inserted or updated and has its row.
  An entry with a missing key, or an engine error at any entry or at the commit, makes
  the call raise, and an error of the loop is the error the caller receives.
\<close>
theorem upsert_tenders_batch_atomic:
  assumes "upsert_tenders_batch pid now fault ts st = (st', res)"
  shows "(case res of
            Inl e \<Rightarrow> st' = st
          | Inr (ins, upd) \<Rightarrow>
              upsert_loop pid now fault 0 ts (tenders st) 0 0 = Inr (tenders st', ins, upd)
              \<and> ins + upd = length ts
              \<and> (\<forall>t \<in> set ts. \<exists>r \<in> set (tenders st'). matches pid (tender_hash t) r))
       \<and> ((\<exists>t \<in> set ts. missing_key t \<noteq> None) \<or> (\<exists>k \<le> length ts. fault = Some k)
            \<longrightarrow> (\<exists>e. res = Inl e))
       \<and> (\<forall>e. upsert_loop pid now fault 0 ts (tenders st) 0 0 = Inl e \<longrightarrow> res = Inl e)"
proof (cases res)
  case (Inl e)
  with assms upsert_batch_Inl have "st' = st" by blast
  moreover have "upsert_loop pid now fault 0 ts (tenders st) 0 0 = Inl e' \<longrightarrow> res = Inl e'" for e'
    using assms upsert_batch_loop_Inl by fastforce
  ultimately show ?thesis using Inl by simp
next
  case (Inr c)
  obtain ins upd where c: "c = (ins, upd)" by (cases c)
  from assms Inr c have r: "upsert_tenders_batch pid now fault ts st = (st', Inr (ins, upd))" by simp
  from upsert_batch_Inr[OF r] have
    loop: "upsert_loop pid now fault 0 ts (tenders st) 0 0 = Inr (tenders st', ins, upd)" by simp
  note pres = upsert_loop_present[OF loop]
  have nf: "\<not> (\<exists>k \<le> length ts. fault = Some k)"
  proof
    assume "\<exists>k \<le> length ts. fault = Some k"
    then obtain k where k: "k \<le> length ts" "fault = Some k" by blast
    with loop upsert_loop_no_fault[of pid now k 0 ts "tenders st" 0 0] have "k = length ts" by auto
    with r k show False
      by (auto simp: upsert_tenders_batch_def get_connection_def Let_def split: sum.splits)
  qed
  from pres have "\<not> (\<exists>t \<in> set ts. missing_key t \<noteq> None)" by simp
  with nf loop pres Inr c show ?thesis by simp
qed

definition broken_tender :: tender where
  "broken_tender = (example_tender ''h2'' ''2'')(''Run Date'' := None)"

theorem upsert_tenders_batch_atomic_witness:
  "fst (upsert_tenders_batch ''WB'' 5 None [example_tender ''h1'' ''1'', broken_tender] empty_store)
     = empty_store
   \<and> snd (upsert_tenders_batch ''WB'' 5 None [example_tender ''h1'' ''1'', broken_tender] empty_store)
     = Inl (KeyError ''Run Date'')
   \<and> (\<exists>e. snd (upsert_tenders_batch ''WB'' 5 (Some 1) [example_tender ''h1'' ''1'', example_tender ''h2'' ''2''] empty_store)
     = Inl e)"
proof -
  let ?b = "[example_tender ''h1'' ''1'', broken_tender]"
  let ?g = "[example_tender ''h1'' ''1'', example_tender ''h2'' ''2'']"
  have s: "snd (upsert_tenders_batch ''WB'' 5 None ?b empty_store) = Inl (KeyError ''Run Date'')"
    by (simp add: upsert_tenders_batch_def get_connection_def rollback_def close_connection_def
        empty_store_def upsert_one_def missing_key_def required_keys_def example_tender_def
        broken_tender_def matches_def)
  have "fst (upsert_tenders_batch ''WB'' 5 None ?b empty_store) = empty_store"
    using upsert_tenders_batch_atomic[OF prod.collapse[symmetric], of "''WB''" 5 None ?b empty_store] s
    by simp
  moreover have "\<exists>e. snd (upsert_tenders_batch ''WB'' 5 (Some 1) ?g empty_store) = Inl e"
    using upsert_tenders_batch_atomic[OF prod.collapse[symmetric], of "''WB''" 5 "Some 1" ?g empty_store]
    by simp
  ultimately show ?thesis using s by simp
qed

text \<open>
  Claim C5. For every row that was in the table before the call, a successful
  \<open>upsert_tenders_batch\<close> leaves \<open>ai_filtered\<close>, \<open>phase2_status\<close>, \<open>work_description\<close> and
  \<open>created_at\<close> (and the id, the key and \<open>phase1_status\<close>) as they were; a row named by the
  batch becomes the old row with the nine source fields and \<open>updated_at\<close> overwritten from
  an entry of the batch, and a row the batch does not name is unchanged.
\<close>
theorem upsert_tenders_batch_frame:
  assumes "upsert_tenders_batch pid now fault ts st = (st', Inr (ins, upd))"
  shows "length (tenders st) \<le> length (tenders st')
       \<and> (\<forall>j < length (tenders st).
             row_rel pid now ts (tenders st ! j) (tenders st' ! j)
           \<and> ai_filtered (tenders st' ! j) = ai_filtered (tenders st ! j)
           \<and> phase2_status (tenders st' ! j) = phase2_status (tenders st ! j)
           \<and> work_description (tenders st' ! j) = work_description (tenders st ! j)
           \<and> created_at (tenders st' ! j) = created_at (tenders st ! j)
           \<and> row_id (tenders st' ! j) = row_id (tenders st ! j)
           \<and> portal_id (tenders st' ! j) = portal_id (tenders st ! j)
           \<and> identity_hash (tenders st' ! j) = identity_hash (tenders st ! j)
           \<and> phase1_status (tenders st' ! j) = phase1_status (tenders st ! j))"
proof -
  from upsert_batch_Inr[OF assms] have
    "upsert_loop pid now fault 0 ts (tenders st) 0 0 = Inr (tenders st', ins, upd)" by simp
  from upsert_loop_rel[OF this] have
    len: "length (tenders st) \<le> length (tenders st')" and
    rel: "\<And>j. j < length (tenders st) \<Longrightarrow> row_rel pid now ts (tenders st ! j) (tenders st' ! j)"
    by auto
  have "frame r' = frame r" if "row_rel pid now ts r r'" for r r'
    using that by (auto simp: row_rel_def frame_update_row split: if_splits)
  with rel have "\<And>j. j < length (tenders st) \<Longrightarrow> frame (tenders st' ! j) = frame (tenders st ! j)"
    by blast
  with len rel show ?thesis by (simp add: frame_def)
qed

definition classified_row :: tender_row where
  "classified_row = (insert_row ''WB'' 5 (example_tender ''h1'' ''1'') [])
     \<lparr>work_description := ''Resurfacing of road'', phase2_status := ''success'', ai_filtered := 1\<rparr>"

lemma example_second_pass:
  "upsert_tenders_batch ''WB'' 9 None [example_tender ''h1'' ''7'', example_tender ''h9'' ''8'']
     (empty_store\<lparr>tenders := [classified_row]\<rparr>)
   = (empty_store\<lparr>tenders := [update_row 9 (example_tender ''h1'' ''7'') classified_row,
         insert_row ''WB'' 9 (example_tender ''h9'' ''8'') [classified_row]]\<rparr>, Inr (1, 1))"
  by (simp add: upsert_tenders_batch_def get_connection_def commit_def close_connection_def
      empty_store_def upsert_one_def missing_key_def required_keys_def example_tender_def
      matches_def insert_row_def get_or_empty_def update_row_def classified_row_def next_id_def)

theorem upsert_tenders_batch_frame_witness:
  "ai_filtered (update_row 9 (example_tender ''h1'' ''7'') classified_row) = 1
   \<and> phase2_status (update_row 9 (example_tender ''h1'' ''7'') classified_row) = ''success''
   \<and> work_description (update_row 9 (example_tender ''h1'' ''7'') classified_row) = ''Resurfacing of road''
   \<and> created_at (update_row 9 (example_tender ''h1'' ''7'') classified_row) = 5
   \<and> s_no (update_row 9 (example_tender ''h1'' ''7'') classified_row) = ''7''
   \<and> updated_at (update_row 9 (example_tender ''h1'' ''7'') classified_row) = 9"
proof -
  have "ai_filtered classified_row = 1" "phase2_status classified_row = ''success''"
    "work_description classified_row = ''Resurfacing of road''" "created_at classified_row = 5"
    by (simp_all add: classified_row_def insert_row_def)
  moreover have "s_no (update_row 9 (example_tender ''h1'' ''7'') classified_row) = ''7''"
    "updated_at (update_row 9 (example_tender ''h1'' ''7'') classified_row) = 9"
    by (simp_all add: update_row_def example_tender_def get_or_empty_def)
  ultimately show ?thesis
    using upsert_tenders_batch_frame[OF example_second_pass] by (simp add: empty_store_def)
qed

section \<open>Pagination (class IsolatedPortalScraper)\<close>

subsection \<open>Strings\<close>

text \<open>
  \<open>str.lower()\<close> on the bytes of a string: the ASCII capitals are mapped to their small
  letters. (No other character lowers to a letter of the words searched for below.)
\<close>

definition lower_char :: "char \<Rightarrow> char" where
  "lower_char c =
     (case map_of (zip ''ABCDEFGHIJKLMNOPQRSTUVWXYZ'' ''abcdefghijklmnopqrstuvwxyz'') c of
        None \<Rightarrow> c
      | Some l \<Rightarrow> l)"

definition lower :: "string \<Rightarrow> string" where
  "lower s = map lower_char s"

text \<open>\<open>h.startswith(p)\<close> and \<open>sub in s\<close>.\<close>

definition startswith :: "string \<Rightarrow> string \<Rightarrow> bool" where
  "startswith h p = (take (length p) h = p)"

fun str_contains :: "string \<Rightarrow> string \<Rightarrow> bool" where
  "str_contains sub [] = (sub = [])"
| "str_contains sub (c # cs) = (startswith (c # cs) sub \<or> str_contains sub cs)"

subsection \<open>The next-page control as the driver reports it\<close>

text \<open>
  An element handle for \<open>a#linkFwd\<close>: what each introspection call of the driver returns
  on it, or the exception it raises.
\<close>

record element =
  is_visible :: "error + bool"
  class_attr :: "error + string option"
  disabled_attr :: "error + string option"
  is_enabled :: "error + bool"
  href_attr :: "error + string option"

definition check_error :: "error \<Rightarrow> bool \<times> string" where
  "check_error e = (False, ''check_error: '' @ err_msg e)"

text \<open>\<open>not href or href == "#" or href == "javascript:void(0)"\<close>\<close>

definition invalid_href :: "string option \<Rightarrow> bool" where
  "invalid_href h = (case h of None \<Rightarrow> True
                     | Some s \<Rightarrow> s = [] \<or> s = ''#'' \<or> s = ''javascript:void(0)'')"

text \<open>\<open>'disabled' in classes.lower() or disabled_attr is not None\<close>, with
  \<open>classes = get_attribute('class') or ''\<close>.\<close>

definition disabled_marker :: "string option \<Rightarrow> string option \<Rightarrow> bool" where
  "disabled_marker cls dis =
     (str_contains ''disabled'' (lower (case cls of None \<Rightarrow> [] | Some c \<Rightarrow> c)) \<or> dis \<noteq> None)"

text \<open>
  \<open>is_next_button_available\<close>, given the result of \<open>page.query_selector("a#linkFwd")\<close>.
  Every exception inside it is caught by its own handler and reported as unavailable;
  an exception of \<open>is_enabled()\<close> alone is passed over.
\<close>

definition is_next_button_available :: "error + element option \<Rightarrow> bool \<times> string" where
  "is_next_button_available q =
     (case q of
        Inl e \<Rightarrow> check_error e
      | Inr None \<Rightarrow> (False, ''next_link_not_found'')
      | Inr (Some el) \<Rightarrow>
          (case is_visible el of
             Inl e \<Rightarrow> check_error e
           | Inr vis \<Rightarrow>
               if \<not> vis then (False, ''next_link_hidden'')
               else (case class_attr el of
                  Inl e \<Rightarrow> check_error e
                | Inr cls \<Rightarrow>
                    (case disabled_attr el of
                       Inl e \<Rightarrow> check_error e
                     | Inr dis \<Rightarrow>
                         if disabled_marker cls dis then (False, ''next_link_disabled'')
                         else if is_enabled el = Inr False then (False, ''next_link_not_enabled'')
                         else (case href_attr el of
                                 Inl e \<Rightarrow> check_error e
                               | Inr h \<Rightarrow>
                                   if invalid_href h then (False, ''next_link_invalid_href'')
                                   else (True, ''available''))))))"

subsection \<open>get_next_page_link_with_retry\<close>

text \<open>The settings of \<open>__init__\<close>; delays in seconds.\<close>

definition max_stale_retries :: nat where "max_stale_retries = 3"
definition stale_retry_delay :: nat where "stale_retry_delay = 2"
definition pagination_delay :: nat where "pagination_delay = 1"

text \<open>
  What the driver reports during one attempt: the query inside
  \<open>is_next_button_available\<close>, and the second query of the same selector that follows it.
\<close>

record attempt_obs =
  check_query :: "error + element option"
  link_query :: "error + element option"

text \<open>The body of the \<open>try\<close>: the URL, \<open>None\<close>, or the exception that leaves it.\<close>

definition next_link_attempt :: "string \<Rightarrow> attempt_obs \<Rightarrow> error + string option" where
  "next_link_attempt base_url obs =
     (if \<not> fst (is_next_button_available (check_query obs)) then Inr None
      else (case link_query obs of
              Inl e \<Rightarrow> Inl e
            | Inr None \<Rightarrow> Inr None
            | Inr (Some el) \<Rightarrow>
                (case href_attr el of
                   Inl e \<Rightarrow> Inl e
                 | Inr None \<Rightarrow> Inr None
                 | Inr (Some h) \<Rightarrow>
                     if h = [] then Inr None
                     else Inr (Some (if startswith h ''/'' then base_url @ h else h)))))"

text \<open>\<open>'stale' in error_msg or 'detached' in error_msg\<close>, with \<open>error_msg = str(e).lower()\<close>.\<close>

definition is_stale :: "error \<Rightarrow> bool" where
  "is_stale e = (str_contains ''stale'' (lower (err_msg e)) \<or> str_contains ''detached'' (lower (err_msg e)))"

text \<open>
  The \<open>for attempt in range(1, max_stale_retries + 1)\<close> loop; \<open>left\<close> counts the
  iterations still to run. The page is given by what the driver reports at each
  attempt. The result comes with the \<open>time.sleep\<close> calls made, in order (the first of
  each attempt is the one inside \<open>is_next_button_available\<close>).
\<close>

fun retry_loop ::
  "string \<Rightarrow> (nat \<Rightarrow> attempt_obs) \<Rightarrow> nat \<Rightarrow> nat \<Rightarrow> (error + string option) \<times> nat list" where
  "retry_loop base_url page attempt 0 = (Inr None, [])"
| "retry_loop base_url page attempt (Suc left) =
     (case next_link_attempt base_url (page attempt) of
        Inr r \<Rightarrow> (Inr r, [pagination_delay])
      | Inl e \<Rightarrow>
          if is_stale e then
            (if attempt < max_stale_retries
             then (case retry_loop base_url page (Suc attempt) left of
                     (r, sleeps) \<Rightarrow> (r, pagination_delay # stale_retry_delay # sleeps))
             else (Inr None, [pagination_delay]))
          else (Inr None, [pagination_delay]))"

definition get_next_page_link_with_retry ::
  "string \<Rightarrow> (nat \<Rightarrow> attempt_obs) \<Rightarrow> (error + string option) \<times> nat list" where
  "get_next_page_link_with_retry base_url page = retry_loop base_url page 1 max_stale_retries"

section \<open>Phase 1: extraction with pagination\<close>

subsection \<open>Checkpoint values\<close>

text \<open>
  \<open>str(page_num)\<close> for a page number, and \<open>int(s)\<close> on a stored value. \<open>int\<close> is
  modelled on strings of decimal digits, which is what \<open>str\<close> writes; on any other
  string the model raises \<open>ValueError\<close>.
\<close>

definition digit_char :: "nat \<Rightarrow> char" where
  "digit_char d = ''0123456789'' ! d"

function str_nat :: "nat \<Rightarrow> string" where
  "str_nat n = (if n < 10 then [digit_char n] else str_nat (n div 10) @ [digit_char (n mod 10)])"
  by pat_completeness auto
termination
  by (relation "measure id") auto

definition is_digit :: "char \<Rightarrow> bool" where
  "is_digit c = (48 \<le> (of_char c :: nat) \<and> (of_char c :: nat) \<le> 57)"

definition int_of_str :: "string \<Rightarrow> error + nat" where
  "int_of_str s =
     (if s \<noteq> [] \<and> list_all is_digit s
      then Inr (foldl (\<lambda>a c. 10 * a + (of_char c - 48)) 0 s)
      else Inl (ValueError s))"

subsection \<open>The listing as the browser shows it\<close>

text \<open>
  One page of the listing: the tenders \<open>extract_tenders_from_page\<close> returns on it, what
  the driver reports about its next-page control at each attempt, and how many
  \<open>page.goto(next_url)\<close> calls in a row fail when leaving it. The listing is the list of
  its pages in the order the next links lead through them; the browser shows the first
  page of the list it is given.
\<close>

record listing_page =
  page_tenders :: "tender list"
  next_link_obs :: "nat \<Rightarrow> attempt_obs"
  goto_failures :: nat

definition get_phase1_count :: "string \<Rightarrow> store \<Rightarrow> nat" where
  "get_phase1_count pid st =
     length (filter (\<lambda>r. portal_id r = pid \<and> phase1_status r = ''extracted'') (tenders st))"

text \<open>The \<open>if page_tenders:\<close> block: upsert the page's batch, then advance the checkpoint.\<close>

definition store_page :: "string \<Rightarrow> nat \<Rightarrow> tender list \<Rightarrow> nat \<Rightarrow> store \<Rightarrow> store \<times> (error + unit)" where
  "store_page pid now ts page_num st =
     (if ts \<noteq> [] then
        (case upsert_tenders_batch pid now None ts st of
           (st', Inl e) \<Rightarrow> (st', Inl e)
         | (st', Inr counts) \<Rightarrow>
             (set_metadata pid ''last_page_extracted'' (str_nat page_num) st', Inr ()))
      else (st, Inr ()))"

text \<open>
  The \<open>while True\<close> loop of \<open>run_phase1\<close> with the browser on page \<open>cur\<close> and the pages
  \<open>rest\<close> behind it. It ends when no next URL is found or when three \<open>goto\<close> attempts
  fail (also when the next link leads nowhere: no page is left), and returns the store
  and the last page number, or the exception of the upsert.
\<close>

fun run_phase1_loop ::
  "string \<Rightarrow> string \<Rightarrow> nat \<Rightarrow> listing_page \<Rightarrow> listing_page list \<Rightarrow> nat \<Rightarrow> store
   \<Rightarrow> store \<times> (error + nat)" where
  "run_phase1_loop pid base_url now cur rest page_num st =
     (case store_page pid now (page_tenders cur) page_num st of
        (st1, Inl e) \<Rightarrow> (st1, Inl e)
      | (st1, Inr u) \<Rightarrow>
          (case fst (get_next_page_link_with_retry base_url (next_link_obs cur)) of
             Inr (Some next_url) \<Rightarrow>
               if next_url = [] then (st1, Inr page_num)
               else (case rest of
                       [] \<Rightarrow> (st1, Inr page_num)
                     | nxt # rest' \<Rightarrow>
                         if goto_failures cur < 3
                         then run_phase1_loop pid base_url now nxt rest' (Suc page_num) st1
                         else (st1, Inr page_num))
           | Inr None \<Rightarrow> (st1, Inr page_num)
           | Inl e \<Rightarrow> (st1, Inl e)))"

text \<open>
  \<open>run_phase1\<close>. The page it is given is the one the caller's navigation left the browser
  on, the first of the listing. It returns the store, and \<open>total_extracted\<close> with the last
  page number (\<open>self.pages_scraped\<close>), or the exception.
\<close>

definition start_page :: "string option \<Rightarrow> error + nat" where
  "start_page last_page_str =
     (if truthy last_page_str
      then (case int_of_str (the last_page_str) of Inl e \<Rightarrow> Inl e | Inr n \<Rightarrow> Inr (n + 1))
      else Inr 1)"

definition run_phase1 ::
  "string \<Rightarrow> string \<Rightarrow> nat \<Rightarrow> listing_page \<Rightarrow> listing_page list \<Rightarrow> store
   \<Rightarrow> store \<times> (error + nat \<times> nat)" where
  "run_phase1 pid base_url now cur rest st =
     (case start_page (get_metadata pid ''last_page_extracted'' st) of
        Inl e \<Rightarrow> (st, Inl e)
      | Inr page_num \<Rightarrow>
          (case run_phase1_loop pid base_url now cur rest page_num st of
             (st1, Inl e) \<Rightarrow> (st1, Inl e)
           | (st1, Inr last_page) \<Rightarrow>
               (set_metadata pid ''phase1_complete'' ''true'' st1,
                Inr (get_phase1_count pid st1, last_page))))"

subsection \<open>Properties of the pagination\<close>

lemma available_shape:
  assumes "fst (is_next_button_available q)"
  shows "\<exists>el h. q = Inr (Some el) \<and> href_attr el = Inr (Some h) \<and> h \<noteq> []"
  using assms
  by (auto simp: is_next_button_available_def check_error_def invalid_href_def
      split: sum.splits option.splits if_splits)

lemma retry_first_Inr:
  assumes "next_link_attempt base_url (page 1) = Inr r"
  shows "get_next_page_link_with_retry base_url page = (Inr r, [pagination_delay])"
  using assms by (simp add: get_next_page_link_with_retry_def max_stale_retries_def numeral_3_eq_3)

text \<open>The page number only grows along the loop.\<close>

lemma run_phase1_loop_page:
  "run_phase1_loop pid base_url now cur rest page_num st = (st2, Inr final) \<Longrightarrow> page_num \<le> final"
proof (induction rest arbitrary: cur page_num st)
  case Nil
  then show ?case
    by (auto split: prod.splits sum.splits option.splits if_splits)
next
  case (Cons nxt rest')
  show ?case
  proof (cases "\<exists>st1 url. store_page pid now (page_tenders cur) page_num st = (st1, Inr ())
          \<and> fst (get_next_page_link_with_retry base_url (next_link_obs cur)) = Inr (Some url)
          \<and> url \<noteq> [] \<and> goto_failures cur < 3")
    case True
    then obtain st1 url where s: "store_page pid now (page_tenders cur) page_num st = (st1, Inr ())"
      "fst (get_next_page_link_with_retry base_url (next_link_obs cur)) = Inr (Some url)"
      "url \<noteq> []" "goto_failures cur < 3" by blast
    then have "run_phase1_loop pid base_url now cur (nxt # rest') page_num st
        = run_phase1_loop pid base_url now nxt rest' (Suc page_num) st1" by simp
    with Cons.prems have "run_phase1_loop pid base_url now nxt rest' (Suc page_num) st1 = (st2, Inr final)"
      by simp
    from Cons.IH[OF this] show ?thesis by simp
  next
    case False
    with Cons.prems show ?thesis
      by (auto split: prod.splits sum.splits option.splits if_splits)
  qed
qed

text \<open>Sample pages and a sample next-page control for the concrete instances below.\<close>

definition sample_page :: "error + element option \<Rightarrow> listing_page" where
  "sample_page q = \<lparr>page_tenders = [], next_link_obs = (\<lambda>k. \<lparr>check_query = q, link_query = q\<rparr>),
                     goto_failures = 0\<rparr>"

definition sample_link :: element where
  "sample_link = \<lparr>is_visible = Inr True, class_attr = Inr (Some ''nav''), disabled_attr = Inr None,
                   is_enabled = Inr True, href_attr = Inr (Some ''/nicgep/app?page=2'')\<rparr>"

text \<open>
  Claim C1. Each of the four conditions makes \<open>is_next_button_available\<close> report that no
  next page is available, whatever the other introspection calls return: the control is
  absent; it is not visible; its class contains \<open>disabled\<close> (in any case) or it has a
  \<open>disabled\<close> attribute; its href is missing, empty, \<open>#\<close> or \<open>javascript:void(0)\<close>. When
  the check reports unavailable, \<open>get_next_page_link_with_retry\<close> returns \<open>None\<close> and the
  loop of phase 1 ends at the current page. A control that is visible, carries no
  disabled marker, is not reported disabled by \<open>is_enabled\<close> and has any other href is
  reported available and the link function returns its URL; the loop of phase 1 then does
  not end at the current page: once the navigation to that URL succeeds (fewer than three
  failed \<open>goto\<close> attempts) it continues on the next page with the page number increased
  by one, and whatever it returns, it is not the current page number.
\<close>

theorem next_button_four_way:
  "\<not> fst (is_next_button_available (Inr None))
   \<and> (is_visible el = Inr False \<longrightarrow> \<not> fst (is_next_button_available (Inr (Some el))))
   \<and> ((\<exists>c. class_attr el = Inr (Some c) \<and> str_contains ''disabled'' (lower c))
        \<or> (\<exists>d. disabled_attr el = Inr (Some d))
       \<longrightarrow> \<not> fst (is_next_button_available (Inr (Some el))))
   \<and> (href_attr el = Inr None \<or> href_attr el = Inr (Some []) \<or> href_attr el = Inr (Some ''#'')
        \<or> href_attr el = Inr (Some ''javascript:void(0)'')
       \<longrightarrow> \<not> fst (is_next_button_available (Inr (Some el))))
   \<and> (\<not> fst (is_next_button_available (check_query (next_link_obs cur 1)))
       \<longrightarrow> fst (get_next_page_link_with_retry base_url (next_link_obs cur)) = Inr None
         \<and> (\<forall>st1. store_page pid now (page_tenders cur) page_num st = (st1, Inr ())
               \<longrightarrow> run_phase1_loop pid base_url now cur rest page_num st = (st1, Inr page_num)))
   \<and> (is_visible el = Inr True \<and> class_attr el = Inr cls \<and> disabled_attr el = Inr None
        \<and> \<not> str_contains ''disabled'' (lower (case cls of None \<Rightarrow> [] | Some c \<Rightarrow> c))
        \<and> is_enabled el \<noteq> Inr False
        \<and> href_attr el = Inr (Some h) \<and> h \<noteq> [] \<and> h \<noteq> ''#'' \<and> h \<noteq> ''javascript:void(0)''
       \<longrightarrow> is_next_button_available (Inr (Some el)) = (True, ''available'')
         \<and> (\<exists>url. url \<noteq> [] \<and>
               get_next_page_link_with_retry base_url (\<lambda>k. \<lparr>check_query = Inr (Some el), link_query = Inr (Some el)\<rparr>)
               = (Inr (Some url), [pagination_delay]))
         \<and> (next_link_obs cur 1 = \<lparr>check_query = Inr (Some el), link_query = Inr (Some el)\<rparr>
              \<and> goto_failures cur < 3
            \<longrightarrow> (\<forall>st1. store_page pid now (page_tenders cur) page_num st = (st1, Inr ())
                 \<longrightarrow> run_phase1_loop pid base_url now cur (nxt # rest) page_num st
                       = run_phase1_loop pid base_url now nxt rest (Suc page_num) st1
                     \<and> snd (run_phase1_loop pid base_url now cur (nxt # rest) page_num st)
                       \<noteq> Inr page_num)))"
proof -
  have absent: "\<not> fst (is_next_button_available (Inr None))"
    by (simp add: is_next_button_available_def)
  have hidden: "is_visible el = Inr False \<longrightarrow> \<not> fst (is_next_button_available (Inr (Some el)))"
    by (simp add: is_next_button_available_def)
  have disabled: "(\<exists>c. class_attr el = Inr (Some c) \<and> str_contains ''disabled'' (lower c))
        \<or> (\<exists>d. disabled_attr el = Inr (Some d))
       \<longrightarrow> \<not> fst (is_next_button_available (Inr (Some el)))"
    by (auto simp: is_next_button_available_def check_error_def disabled_marker_def
        split: sum.splits option.splits)
  have href: "href_attr el = Inr None \<or> href_attr el = Inr (Some []) \<or> href_attr el = Inr (Some ''#'')
        \<or> href_attr el = Inr (Some ''javascript:void(0)'')
       \<longrightarrow> \<not> fst (is_next_button_available (Inr (Some el)))"
    by (auto simp: is_next_button_available_def check_error_def invalid_href_def
        split: sum.splits option.splits)
  have stop: "fst (get_next_page_link_with_retry base_url (next_link_obs cur)) = Inr None
         \<and> (\<forall>st1. store_page pid now (page_tenders cur) page_num st = (st1, Inr ())
               \<longrightarrow> run_phase1_loop pid base_url now cur rest page_num st = (st1, Inr page_num))"
    if "\<not> fst (is_next_button_available (check_query (next_link_obs cur 1)))"
  proof -
    from that have "next_link_attempt base_url (next_link_obs cur 1) = Inr None"
      by (simp add: next_link_attempt_def)
    from retry_first_Inr[of base_url "next_link_obs cur", OF this] show ?thesis
      by simp
  qed
  have avail: "is_next_button_available (Inr (Some el)) = (True, ''available'')
         \<and> (\<exists>url. url \<noteq> [] \<and>
               get_next_page_link_with_retry base_url (\<lambda>k. \<lparr>check_query = Inr (Some el), link_query = Inr (Some el)\<rparr>)
               = (Inr (Some url), [pagination_delay]))
         \<and> (next_link_obs cur 1 = \<lparr>check_query = Inr (Some el), link_query = Inr (Some el)\<rparr>
              \<and> goto_failures cur < 3
            \<longrightarrow> (\<forall>st1. store_page pid now (page_tenders cur) page_num st = (st1, Inr ())
                 \<longrightarrow> run_phase1_loop pid base_url now cur (nxt # rest) page_num st
                       = run_phase1_loop pid base_url now nxt rest (Suc page_num) st1
                     \<and> snd (run_phase1_loop pid base_url now cur (nxt # rest) page_num st)
                       \<noteq> Inr page_num))"
    if a: "is_visible el = Inr True" "class_attr el = Inr cls" "disabled_attr el = Inr None"
        "\<not> str_contains ''disabled'' (lower (case cls of None \<Rightarrow> [] | Some c \<Rightarrow> c))"
        "is_enabled el \<noteq> Inr False"
        "href_attr el = Inr (Some h)" "h \<noteq> []" "h \<noteq> ''#''" "h \<noteq> ''javascript:void(0)''"
  proof -
    from a have av: "is_next_button_available (Inr (Some el)) = (True, ''available'')"
      by (simp add: is_next_button_available_def disabled_marker_def invalid_href_def)
    let ?url = "if startswith h ''/'' then base_url @ h else h"
    from av a have att: "next_link_attempt base_url \<lparr>check_query = Inr (Some el), link_query = Inr (Some el)\<rparr>
        = Inr (Some ?url)"
      by (simp add: next_link_attempt_def)
    then have "get_next_page_link_with_retry base_url (\<lambda>k. \<lparr>check_query = Inr (Some el), link_query = Inr (Some el)\<rparr>)
        = (Inr (Some ?url), [pagination_delay])"
      by (intro retry_first_Inr) simp
    moreover from a have nonempty: "?url \<noteq> []" by simp
    moreover have "run_phase1_loop pid base_url now cur (nxt # rest) page_num st
                       = run_phase1_loop pid base_url now nxt rest (Suc page_num) st1
                     \<and> snd (run_phase1_loop pid base_url now cur (nxt # rest) page_num st)
                       \<noteq> Inr page_num"
      if obs: "next_link_obs cur 1 = \<lparr>check_query = Inr (Some el), link_query = Inr (Some el)\<rparr>"
        and nav: "goto_failures cur < 3"
        and sp: "store_page pid now (page_tenders cur) page_num st = (st1, Inr ())" for st1
    proof -
      from att obs have "next_link_attempt base_url (next_link_obs cur 1) = Inr (Some ?url)" by simp
      from retry_first_Inr[of base_url "next_link_obs cur", OF this]
      have link: "fst (get_next_page_link_with_retry base_url (next_link_obs cur)) = Inr (Some ?url)"
        by simp
      have step: "run_phase1_loop pid base_url now cur (nxt # rest) page_num st
                       = run_phase1_loop pid base_url now nxt rest (Suc page_num) st1"
        using sp link nonempty nav by (simp del: run_phase1_loop.simps add: run_phase1_loop.simps[of _ _ _ cur])
      have "snd (run_phase1_loop pid base_url now nxt rest (Suc page_num) st1) \<noteq> Inr page_num"
      proof
        assume e: "snd (run_phase1_loop pid base_url now nxt rest (Suc page_num) st1) = Inr page_num"
        obtain st2 where "run_phase1_loop pid base_url now nxt rest (Suc page_num) st1 = (st2, Inr page_num)"
          using e by (cases "run_phase1_loop pid base_url now nxt rest (Suc page_num) st1") simp
        from run_phase1_loop_page[OF this] show False by simp
      qed
      with step show ?thesis by simp
    qed
    ultimately show ?thesis using av by blast
  qed
  from absent hidden disabled href stop avail show ?thesis by blast
qed

theorem next_button_four_way_witness:
  "\<not> fst (is_next_button_available (Inr (Some (sample_link\<lparr>is_visible := Inr False\<rparr>))))
   \<and> \<not> fst (is_next_button_available (Inr (Some (sample_link\<lparr>class_attr := Inr (Some ''nav Disabled'')\<rparr>))))
   \<and> \<not> fst (is_next_button_available (Inr (Some (sample_link\<lparr>href_attr := Inr (Some ''#'')\<rparr>))))
   \<and> run_phase1_loop ''WB'' ''https://wbtenders.gov.in'' 5 (sample_page (Inr None)) [sample_page (Inr None)] 4 empty_store
       = (empty_store, Inr 4)
   \<and> is_next_button_available (Inr (Some sample_link)) = (True, ''available'')
   \<and> run_phase1_loop ''WB'' ''https://wbtenders.gov.in'' 5 (sample_page (Inr (Some sample_link)))
        [sample_page (Inr None)] 4 empty_store
       = (empty_store, Inr 5)"
proof -
  have c: "str_contains ''disabled'' (lower ''nav Disabled'')"
    by (simp add: lower_def lower_char_def startswith_def)
  have n: "\<not> str_contains ''disabled'' (lower ''nav'')"
    by (simp add: lower_def lower_char_def startswith_def)
  have 1: "\<not> fst (is_next_button_available (Inr (Some (sample_link\<lparr>is_visible := Inr False\<rparr>))))"
    using next_button_four_way[of "sample_link\<lparr>is_visible := Inr False\<rparr>"] by simp
  have 2: "\<not> fst (is_next_button_available (Inr (Some (sample_link\<lparr>class_attr := Inr (Some ''nav Disabled'')\<rparr>))))"
    using next_button_four_way[of "sample_link\<lparr>class_attr := Inr (Some ''nav Disabled'')\<rparr>"] c by simp
  have 3: "\<not> fst (is_next_button_available (Inr (Some (sample_link\<lparr>href_attr := Inr (Some ''#'')\<rparr>))))"
    using next_button_four_way[of "sample_link\<lparr>href_attr := Inr (Some ''#'')\<rparr>"] by simp
  have 4: "run_phase1_loop ''WB'' ''https://wbtenders.gov.in'' 5 (sample_page (Inr None)) rest n empty_store
       = (empty_store, Inr n)" for rest n
    using next_button_four_way[of sample_link "sample_page (Inr None)" "''https://wbtenders.gov.in''"
        "''WB''" 5 n empty_store rest]
    by (simp add: sample_page_def store_page_def)
  have 5: "is_next_button_available (Inr (Some sample_link)) = (True, ''available'')"
    using next_button_four_way[of sample_link _ _ _ _ _ _ _ "Some ''nav''" "''/nicgep/app?page=2''"] n
    by (simp add: sample_link_def)
  have 6: "run_phase1_loop ''WB'' ''https://wbtenders.gov.in'' 5 (sample_page (Inr (Some sample_link)))
        [sample_page (Inr None)] 4 empty_store
       = run_phase1_loop ''WB'' ''https://wbtenders.gov.in'' 5 (sample_page (Inr None)) [] 5 empty_store"
    using next_button_four_way[of sample_link "sample_page (Inr (Some sample_link))"
        "''https://wbtenders.gov.in''" "''WB''" 5 4 empty_store "[]" "Some ''nav''"
        "''/nicgep/app?page=2''" "sample_page (Inr None)"] n
    by (simp add: sample_link_def sample_page_def store_page_def del: run_phase1_loop.simps)
  from 1 2 3 4[of "[sample_page (Inr None)]" 4] 5 6 4[of "[]" 5] show ?thesis
    by (simp del: run_phase1_loop.simps)
qed

subsection \<open>The retry policy\<close>

text \<open>Attempt \<open>k\<close> ends in an exception whose message names a stale or detached element.\<close>

definition stale_at :: "string \<Rightarrow> (nat \<Rightarrow> attempt_obs) \<Rightarrow> nat \<Rightarrow> bool" where
  "stale_at base_url page k = (case next_link_attempt base_url (page k) of Inl e \<Rightarrow> is_stale e | Inr r \<Rightarrow> False)"

text \<open>What the caller gets from an attempt that is not retried: its value, or \<open>None\<close> for an exception.\<close>

definition returned :: "error + string option \<Rightarrow> error + string option" where
  "returned a = (case a of Inl e \<Rightarrow> Inr None | Inr r \<Rightarrow> Inr r)"

text \<open>
  Claim C9, as amended. \<open>get_next_page_link_with_retry\<close> never raises. An attempt is
  followed by another one only when it ended in a stale or detached element exception,
  there are at most \<open>max_stale_retries = 3\<close> attempts, and \<open>stale_retry_delay = 2\<close>
  seconds are slept before each retry. The result is that of the last attempt made,
  with \<open>None\<close> in place of any exception: an exception of another kind is not retried and
  is turned into \<open>None\<close>, and so is a stale one on the third attempt.
\<close>

theorem get_next_page_link_retry_policy:
  "(\<exists>r. fst (get_next_page_link_with_retry base_url page) = Inr r)
   \<and> (\<not> stale_at base_url page 1 \<longrightarrow>
        get_next_page_link_with_retry base_url page
        = (returned (next_link_attempt base_url (page 1)), [pagination_delay]))
   \<and> (stale_at base_url page 1 \<and> \<not> stale_at base_url page 2 \<longrightarrow>
        get_next_page_link_with_retry base_url page
        = (returned (next_link_attempt base_url (page 2)),
           [pagination_delay, stale_retry_delay, pagination_delay]))
   \<and> (stale_at base_url page 1 \<and> stale_at base_url page 2 \<longrightarrow>
        get_next_page_link_with_retry base_url page
        = (returned (next_link_attempt base_url (page 3)),
           [pagination_delay, stale_retry_delay, pagination_delay, stale_retry_delay, pagination_delay]))
   \<and> stale_retry_delay = 2 \<and> max_stale_retries = 3"
  by (auto simp: get_next_page_link_with_retry_def max_stale_retries_def numeral_3_eq_3
      numeral_2_eq_2 stale_at_def returned_def stale_retry_delay_def split: sum.splits)

text \<open>A page on which the link lookup after a successful check raises, at every attempt.\<close>

definition failing_lookup :: "string \<Rightarrow> nat \<Rightarrow> attempt_obs" where
  "failing_lookup msg k = \<lparr>check_query = Inr (Some sample_link), link_query = Inl (DriverError msg)\<rparr>"

theorem get_next_page_link_retry_policy_witness:
  "get_next_page_link_with_retry ''https://wbtenders.gov.in''
     (\<lambda>k. if k < 3 then failing_lookup ''Element is DETACHED from the DOM'' k
           else \<lparr>check_query = Inr (Some sample_link), link_query = Inr (Some sample_link)\<rparr>)
   = (Inr (Some ''https://wbtenders.gov.in/nicgep/app?page=2''), [1, 2, 1, 2, 1])"
proof -
  let ?page = "\<lambda>k. if k < 3 then failing_lookup ''Element is DETACHED from the DOM'' k
           else \<lparr>check_query = Inr (Some sample_link), link_query = Inr (Some sample_link)\<rparr>"
  have av: "fst (is_next_button_available (Inr (Some sample_link)))"
    by (simp add: is_next_button_available_def sample_link_def disabled_marker_def invalid_href_def
        lower_def lower_char_def startswith_def)
  have st: "is_stale (DriverError ''Element is DETACHED from the DOM'')"
    by (simp add: is_stale_def lower_def lower_char_def startswith_def)
  have s12: "stale_at ''https://wbtenders.gov.in'' ?page 1 \<and> stale_at ''https://wbtenders.gov.in'' ?page 2"
    using av st by (simp add: stale_at_def next_link_attempt_def failing_lookup_def)
  have r3: "returned (next_link_attempt ''https://wbtenders.gov.in'' (?page 3))
      = Inr (Some ''https://wbtenders.gov.in/nicgep/app?page=2'')"
    using av by (simp add: returned_def next_link_attempt_def sample_link_def startswith_def)
  note policy = get_next_page_link_retry_policy[of "''https://wbtenders.gov.in''" ?page,
      THEN conjunct2, THEN conjunct2, THEN conjunct2, THEN conjunct1, THEN mp, OF s12]
  show ?thesis
    unfolding policy r3 by (simp add: pagination_delay_def stale_retry_delay_def)
qed

text \<open>
  Claim C9 as stated fails: a timeout of the driver in the link lookup is not a stale
  element error, and the caller receives \<open>None\<close> after one attempt, not the exception.
\<close>

theorem other_error_not_propagated:
  "get_next_page_link_with_retry ''https://wbtenders.gov.in'' (failing_lookup ''Timeout 45000ms exceeded'')
   = (Inr None, [1])
   \<and> next_link_attempt ''https://wbtenders.gov.in'' (failing_lookup ''Timeout 45000ms exceeded'' 1)
     = Inl (DriverError ''Timeout 45000ms exceeded'')
   \<and> \<not> is_stale (DriverError ''Timeout 45000ms exceeded'')"
proof -
  have av: "fst (is_next_button_available (Inr (Some sample_link)))"
    by (simp add: is_next_button_available_def sample_link_def disabled_marker_def invalid_href_def
        lower_def lower_char_def startswith_def)
  have ns: "\<not> is_stale (DriverError ''Timeout 45000ms exceeded'')"
    by (simp add: is_stale_def lower_def lower_char_def startswith_def)
  have a: "next_link_attempt ''https://wbtenders.gov.in'' (failing_lookup ''Timeout 45000ms exceeded'' 1)
     = Inl (DriverError ''Timeout 45000ms exceeded'')"
    using av by (simp add: next_link_attempt_def failing_lookup_def)
  from a ns have "get_next_page_link_with_retry ''https://wbtenders.gov.in'' (failing_lookup ''Timeout 45000ms exceeded'')
   = (Inr None, [1])"
    by (simp add: get_next_page_link_with_retry_def max_stale_retries_def numeral_3_eq_3 pagination_delay_def)
  with a ns show ?thesis by simp
qed

subsection \<open>Resuming phase 1\<close>

text \<open>
  A listing of three pages with one tender each, and the store a worker leaves behind
  when it is killed after the checkpoint of page 2.
\<close>

definition listing_of :: "string \<Rightarrow> string \<Rightarrow> error + element option \<Rightarrow> listing_page" where
  "listing_of h sn q = \<lparr>page_tenders = [example_tender h sn],
     next_link_obs = (\<lambda>k. \<lparr>check_query = q, link_query = q\<rparr>), goto_failures = 0\<rparr>"

definition page1 :: listing_page where "page1 = listing_of ''h1'' ''1'' (Inr (Some sample_link))"
definition page2 :: listing_page where "page2 = listing_of ''h2'' ''2'' (Inr (Some sample_link))"
definition page3 :: listing_page where "page3 = listing_of ''h3'' ''3'' (Inr None)"

definition killed_store :: store where
  "killed_store = fst (store_page ''WB'' 5 (page_tenders page2) 2
                    (fst (store_page ''WB'' 5 (page_tenders page1) 1 empty_store)))"

lemma example_tender_get:
  "example_tender h sn ''Identity Hash'' = Some h"
  "missing_key (example_tender h sn) = None"
  "get_or_empty (example_tender h sn) ''Identity Hash'' = h"
  "get_or_empty (example_tender h sn) ''Portal Source'' = ''West Bengal''"
  "get_or_empty (example_tender h sn) ''S.No.'' = sn"
  "get_or_empty (example_tender h sn) ''e-Published Date'' = ''01-Jan-2025''"
  "get_or_empty (example_tender h sn) ''Bid Submission Closing Date'' = ''08-Jan-2025''"
  "get_or_empty (example_tender h sn) ''Tender Opening Date'' = ''09-Jan-2025''"
  "get_or_empty (example_tender h sn) ''Title and Ref.No./Tender ID'' = ''Road repair''"
  "get_or_empty (example_tender h sn) ''Organisation Chain'' = ''PWD''"
  "get_or_empty (example_tender h sn) ''Details URL'' = ''https://wbtenders.gov.in/t1''"
  "get_or_empty (example_tender h sn) ''Work Description'' = []"
  "get_or_empty (example_tender h sn) ''Run Date'' = ''2025-01-02''"
  by (simp_all add: example_tender_def get_or_empty_def missing_key_def required_keys_def)

lemma sample_link_available:
  "is_next_button_available (Inr (Some sample_link)) = (True, ''available'')"
  by (simp add: is_next_button_available_def sample_link_def disabled_marker_def invalid_href_def
      lower_def lower_char_def startswith_def)

lemma sample_link_next:
  "get_next_page_link_with_retry ''https://wbtenders.gov.in''
     (\<lambda>k. \<lparr>check_query = Inr (Some sample_link), link_query = Inr (Some sample_link)\<rparr>)
   = (Inr (Some ''https://wbtenders.gov.in/nicgep/app?page=2''), [pagination_delay])"
  by (rule retry_first_Inr)
     (simp add: next_link_attempt_def sample_link_available, simp add: sample_link_def startswith_def)

lemma no_link_next:
  "get_next_page_link_with_retry b (\<lambda>k. \<lparr>check_query = Inr None, link_query = Inr None\<rparr>)
   = (Inr None, [pagination_delay])"
  by (rule retry_first_Inr) (simp add: next_link_attempt_def is_next_button_available_def)

lemmas eval_defs = run_phase1_def start_page_def truthy_def get_metadata_def set_metadata_def
  int_of_str_def is_digit_def store_page_def upsert_tenders_batch_def get_connection_def
  commit_def close_connection_def empty_store_def upsert_one_def example_tender_get
  matches_def insert_row_def update_row_def next_id_def sample_link_next no_link_next
  listing_of_def page1_def page2_def page3_def killed_store_def get_phase1_count_def
  digit_char_def

text \<open>
  Claim C2 fails on the code. With the checkpoint \<open>last_page_extracted = 2\<close> the restarted
  \<open>run_phase1\<close> numbers its pages from 3, but the browser is on the first page of the
  listing (the navigation to the resume point is a TODO): all three pages are crawled
  again under the numbers 3, 4 and 5, every row is rewritten at the restart's time, and
  the checkpoint ends at 5, where an uninterrupted run ends at 3. The set of stored
  records is the same in both runs.
\<close>

theorem resume_restarts_at_first_page:
  "get_metadata ''WB'' ''last_page_extracted'' killed_store = Some ''2''
   \<and> snd (run_phase1 ''WB'' ''https://wbtenders.gov.in'' 20 page1 [page2, page3] killed_store) = Inr (3, 5)
   \<and> get_metadata ''WB'' ''last_page_extracted''
        (fst (run_phase1 ''WB'' ''https://wbtenders.gov.in'' 20 page1 [page2, page3] killed_store)) = Some ''5''
   \<and> map updated_at
        (tenders (fst (run_phase1 ''WB'' ''https://wbtenders.gov.in'' 20 page1 [page2, page3] killed_store)))
      = [20, 20, 20]
   \<and> snd (run_phase1 ''WB'' ''https://wbtenders.gov.in'' 5 page1 [page2, page3] empty_store) = Inr (3, 3)
   \<and> map identity_hash
        (tenders (fst (run_phase1 ''WB'' ''https://wbtenders.gov.in'' 20 page1 [page2, page3] killed_store)))
      = map identity_hash
        (tenders (fst (run_phase1 ''WB'' ''https://wbtenders.gov.in'' 5 page1 [page2, page3] empty_store)))"
  by (simp add: eval_defs)

section \<open>Identity hash\<close>

text \<open>
  The string \<open>create_identity_hash\<close> digests: title, published date and organisation
  chain (each \<open>''\<close> when the key is missing), joined by underscores.
\<close>

definition identity_key :: "tender \<Rightarrow> string" where
  "identity_key t =
     get_or_empty t ''Title and Ref.No./Tender ID'' @ ''_'' @
     get_or_empty t ''e-Published Date'' @ ''_'' @
     get_or_empty t ''Organisation Chain''"

text \<open>\<open>hexdigest()\<close>: the 128 bits of the digest as 32 hexadecimal digits.\<close>

definition hex_digit :: "nat \<Rightarrow> char" where
  "hex_digit d = ''0123456789abcdef'' ! d"

fun hex_nat :: "nat \<Rightarrow> nat \<Rightarrow> string" where
  "hex_nat 0 n = []"
| "hex_nat (Suc k) n = hex_nat k (n div 16) @ [hex_digit (n mod 16)]"

definition hexdigest :: "128 word \<Rightarrow> string" where
  "hexdigest w = hex_nat 32 (unat w)"

text \<open>
  \<open>create_identity_hash\<close>. The digest function of \<open>hashlib.md5\<close> is a parameter: any
  function from byte strings to 128 bits.
\<close>

definition create_identity_hash :: "(string \<Rightarrow> 128 word) \<Rightarrow> tender \<Rightarrow> string" where
  "create_identity_hash md5 t = hexdigest (md5 (identity_key t))"

subsection \<open>Properties of the identity hash\<close>

lemma hex_digit_inj: "a < 16 \<Longrightarrow> b < 16 \<Longrightarrow> hex_digit a = hex_digit b \<Longrightarrow> a = b"
proof -
  have d: "distinct ''0123456789abcdef''" by simp
  have l: "length ''0123456789abcdef'' = 16" by simp
  assume "a < 16" "b < 16" "hex_digit a = hex_digit b"
  with d l show "a = b"
    unfolding hex_digit_def by (metis nth_eq_iff_index_eq)
qed

lemma hex_nat_inj:
  "n < 16 ^ k \<Longrightarrow> m < 16 ^ k \<Longrightarrow> hex_nat k n = hex_nat k m \<Longrightarrow> n = m"
proof (induction k arbitrary: n m)
  case 0
  then show ?case by simp
next
  case (Suc k)
  from Suc.prems have q: "n div 16 < 16 ^ k" "m div 16 < 16 ^ k"
    by (simp_all add: less_mult_imp_div_less mult.commute)
  from Suc.prems have "hex_nat k (n div 16) = hex_nat k (m div 16)"
    "hex_digit (n mod 16) = hex_digit (m mod 16)" by simp_all
  with Suc.IH[OF q] have "n div 16 = m div 16" "n mod 16 = m mod 16"
    by (auto intro: hex_digit_inj)
  then show ?case by (metis div_mult_mod_eq)
qed

lemma hexdigest_inj: "hexdigest a = hexdigest b \<Longrightarrow> a = b"
proof -
  assume h: "hexdigest a = hexdigest b"
  have "unat a < 2 ^ 128" "unat b < 2 ^ 128"
    using unsigned_less[of a] unsigned_less[of b] by simp_all
  then have ba: "unat a < 16 ^ 32" and bb: "unat b < 16 ^ 32" by simp_all
  from hex_nat_inj[OF ba bb] h have "unat a = unat b" by (simp add: hexdigest_def)
  then show "a = b" by (simp add: word_unat_eq_iff)
qed

text \<open>A tender dict holding just the three digested fields.\<close>

definition fields :: "string \<Rightarrow> string \<Rightarrow> string \<Rightarrow> tender" where
  "fields ti d oc = map_of [(''Title and Ref.No./Tender ID'', ti), (''e-Published Date'', d),
                            (''Organisation Chain'', oc)]"

lemma identity_key_fields: "identity_key (fields ti d oc) = ti @ ''_'' @ d @ ''_'' @ oc"
  by (simp add: identity_key_def fields_def get_or_empty_def)

text \<open>
  Claim C6, as amended. \<open>create_identity_hash\<close> is a function of the title, the
  published date and the organisation chain alone: two tender dicts that agree on those
  three fields (a missing field counting as empty) get the same hash, whatever their
  other fields are. Changing exactly one of the three fields changes the string that is
  digested, and the two hashes are equal exactly when MD5 gives the two digested strings
  the same digest.
\<close>

theorem identity_hash_function_of_key:
  "(get_or_empty t ''Title and Ref.No./Tender ID'' = get_or_empty t' ''Title and Ref.No./Tender ID''
      \<and> get_or_empty t ''e-Published Date'' = get_or_empty t' ''e-Published Date''
      \<and> get_or_empty t ''Organisation Chain'' = get_or_empty t' ''Organisation Chain''
     \<longrightarrow> create_identity_hash md5 t = create_identity_hash md5 t')
   \<and> (get_or_empty t ''Title and Ref.No./Tender ID'' \<noteq> get_or_empty t' ''Title and Ref.No./Tender ID''
      \<and> get_or_empty t ''e-Published Date'' = get_or_empty t' ''e-Published Date''
      \<and> get_or_empty t ''Organisation Chain'' = get_or_empty t' ''Organisation Chain''
     \<longrightarrow> identity_key t \<noteq> identity_key t')
   \<and> (get_or_empty t ''Title and Ref.No./Tender ID'' = get_or_empty t' ''Title and Ref.No./Tender ID''
      \<and> get_or_empty t ''e-Published Date'' \<noteq> get_or_empty t' ''e-Published Date''
      \<and> get_or_empty t ''Organisation Chain'' = get_or_empty t' ''Organisation Chain''
     \<longrightarrow> identity_key t \<noteq> identity_key t')
   \<and> (get_or_empty t ''Title and Ref.No./Tender ID'' = get_or_empty t' ''Title and Ref.No./Tender ID''
      \<and> get_or_empty t ''e-Published Date'' = get_or_empty t' ''e-Published Date''
      \<and> get_or_empty t ''Organisation Chain'' \<noteq> get_or_empty t' ''Organisation Chain''
     \<longrightarrow> identity_key t \<noteq> identity_key t')
   \<and> ((create_identity_hash md5 t = create_identity_hash md5 t')
        = (md5 (identity_key t) = md5 (identity_key t')))"
proof -
  have "(create_identity_hash md5 t = create_identity_hash md5 t')
        = (md5 (identity_key t) = md5 (identity_key t'))"
    by (auto simp: create_identity_hash_def dest: hexdigest_inj)
  then show ?thesis
    by (simp add: identity_key_def)
qed

theorem identity_hash_function_of_key_witness:
  "create_identity_hash (\<lambda>s. 0) (example_tender ''h1'' ''1'') = create_identity_hash (\<lambda>s. 0) (example_tender ''h2'' ''2'')
   \<and> identity_key (fields ''Road repair'' ''01-Jan-2025'' ''PWD'')
       \<noteq> identity_key (fields ''Road repairs'' ''01-Jan-2025'' ''PWD'')"
proof -
  have "create_identity_hash (\<lambda>s. 0) (example_tender ''h1'' ''1'') = create_identity_hash (\<lambda>s. 0) (example_tender ''h2'' ''2'')"
    using identity_hash_function_of_key[of "example_tender ''h1'' ''1''" "example_tender ''h2'' ''2''" "\<lambda>s. 0"]
    by (simp add: example_tender_get)
  moreover have "identity_key (fields ''Road repair'' ''01-Jan-2025'' ''PWD'')
       \<noteq> identity_key (fields ''Road repairs'' ''01-Jan-2025'' ''PWD'')"
    using identity_hash_function_of_key[of "fields ''Road repair'' ''01-Jan-2025'' ''PWD''"
        "fields ''Road repairs'' ''01-Jan-2025'' ''PWD''" "\<lambda>s. 0"]
    by (simp add: fields_def get_or_empty_def)
  ultimately show ?thesis by simp
qed

text \<open>
  Claim C6 as stated fails: no digest function with 128 bits of output gives different
  hashes to all tenders that differ in the title alone. There are infinitely many titles
  and finitely many digests.
\<close>

theorem identity_hash_collision:
  "\<not> (\<exists>md5 :: string \<Rightarrow> 128 word. \<forall>ti ti'. ti \<noteq> ti' \<longrightarrow>
         create_identity_hash md5 (fields ti ''01-Jan-2025'' ''PWD'')
         \<noteq> create_identity_hash md5 (fields ti' ''01-Jan-2025'' ''PWD''))"
proof
  assume "\<exists>md5 :: string \<Rightarrow> 128 word. \<forall>ti ti'. ti \<noteq> ti' \<longrightarrow>
         create_identity_hash md5 (fields ti ''01-Jan-2025'' ''PWD'')
         \<noteq> create_identity_hash md5 (fields ti' ''01-Jan-2025'' ''PWD'')"
  then obtain md5 :: "string \<Rightarrow> 128 word" where
    sep: "\<And>ti ti'. ti \<noteq> ti' \<Longrightarrow> create_identity_hash md5 (fields ti ''01-Jan-2025'' ''PWD'')
         \<noteq> create_identity_hash md5 (fields ti' ''01-Jan-2025'' ''PWD'')" by blast
  let ?f = "\<lambda>ti. md5 (identity_key (fields ti ''01-Jan-2025'' ''PWD''))"
  have "inj ?f"
  proof (rule injI)
    fix x y assume "?f x = ?f y"
    then have "create_identity_hash md5 (fields x ''01-Jan-2025'' ''PWD'')
        = create_identity_hash md5 (fields y ''01-Jan-2025'' ''PWD'')"
      by (simp add: create_identity_hash_def)
    with sep show "x = y" by blast
  qed
  moreover have "finite (range ?f)" by (rule finite_subset[OF subset_UNIV]) simp
  ultimately have "finite (UNIV :: string set)" by (rule finite_imageD[rotated])
  then show False using infinite_UNIV_listI by blast
qed

section \<open>Classification (class IsolatedAIChecker and run_ai_filtering)\<close>

text \<open>
  The classification service as \<open>check_titles\<close> sees it: given the numbered list of
  uncached titles, the body of the \<open>try\<close> either raises (the request fails, or the reply
  is not the expected JSON) or yields the parsed reply, a dict from \<open>str(i)\<close> to a label.
  The dict is keyed here by the number \<open>i\<close> itself.
\<close>

type_synonym classifier = "string list \<Rightarrow> error + (nat \<rightharpoonup> string)"

type_synonym cache = "string \<rightharpoonup> bool"

text \<open>The loop that stores the reply: \<open>for i, title in enumerate(uncached, 1)\<close>.\<close>

fun store_reply :: "(nat \<rightharpoonup> string) \<Rightarrow> nat \<Rightarrow> string list \<Rightarrow> cache \<Rightarrow> cache" where
  "store_reply results i [] c = c"
| "store_reply results i (t # ts) c =
     store_reply results (Suc i) ts
       (c(t \<mapsto> (case results i of None \<Rightarrow> True | Some label \<Rightarrow> label = ''meaningful'')))"

text \<open>\<open>check_titles\<close>: the cache afterwards and the returned dict.\<close>

definition check_titles :: "classifier \<Rightarrow> cache \<Rightarrow> string list \<Rightarrow> cache \<times> (string \<rightharpoonup> bool)" where
  "check_titles service c titles =
     (let uncached = filter (\<lambda>t. c t = None) titles in
      if uncached = [] then (c, c |` set titles)
      else (case service uncached of
              Inr results \<Rightarrow>
                (let c' = store_reply results 1 uncached c in (c', c' |` set titles))
            | Inl e \<Rightarrow>
                (let c' = c ++ (\<lambda>t. if t \<in> set uncached then Some True else None)
                 in (c', \<lambda>t. if t \<in> set titles
                              then Some (case c' t of None \<Rightarrow> True | Some b \<Rightarrow> b)
                              else None))))"

definition mark_ai_filtered :: "string \<Rightarrow> nat \<Rightarrow> string \<Rightarrow> bool \<Rightarrow> store \<Rightarrow> store" where
  "mark_ai_filtered pid now h keep st =
     st\<lparr>tenders := map (\<lambda>r. if matches pid h r
                              then r\<lparr>ai_filtered := (if keep then 1 else - 1), updated_at := now\<rparr>
                              else r) (tenders st)\<rparr>"

text \<open>The rows awaiting classification, as \<open>(hash, title)\<close> pairs.\<close>

definition get_tenders_for_ai_filtering :: "string \<Rightarrow> store \<Rightarrow> (string \<times> string) list" where
  "get_tenders_for_ai_filtering pid st =
     map (\<lambda>r. (identity_hash r, title r))
       (filter (\<lambda>r. portal_id r = pid \<and> ai_filtered r = 0) (tenders st))"

text \<open>
  The inner loop over one batch: \<open>is_meaningful = results.get(title, False)\<close>,
  \<open>keep = not is_meaningful\<close>.
\<close>

fun mark_batch :: "string \<Rightarrow> nat \<Rightarrow> (string \<rightharpoonup> bool) \<Rightarrow> (string \<times> string) list \<Rightarrow> store \<Rightarrow> store" where
  "mark_batch pid now results [] st = st"
| "mark_batch pid now results ((h, t) # rest) st =
     mark_batch pid now results rest
       (mark_ai_filtered pid now h (\<not> (case results t of None \<Rightarrow> False | Some b \<Rightarrow> b)) st)"

definition filter_batch ::
  "classifier \<Rightarrow> string \<Rightarrow> nat \<Rightarrow> (string \<times> string) list \<Rightarrow> cache \<Rightarrow> store \<Rightarrow> cache \<times> store" where
  "filter_batch service pid now batch c st =
     (case check_titles service c (map snd batch) of
        (c', results) \<Rightarrow> (c', mark_batch pid now results batch st))"

text \<open>The outer loop: \<open>for i in range(0, len(tenders_to_filter), batch_size)\<close>.\<close>

definition batch_size :: nat where "batch_size = 50"

function filter_batches ::
  "classifier \<Rightarrow> string \<Rightarrow> nat \<Rightarrow> (string \<times> string) list \<Rightarrow> cache \<Rightarrow> store \<Rightarrow> cache \<times> store" where
  "filter_batches service pid now items c st =
     (if items = [] then (c, st)
      else (case filter_batch service pid now (take batch_size items) c st of
              (c', st') \<Rightarrow> filter_batches service pid now (drop batch_size items) c' st'))"
  by pat_completeness auto
termination
  by (relation "measure (\<lambda>(service, pid, now, items, c, st). length items)")
     (auto simp: batch_size_def)

text \<open>
  \<open>run_ai_filtering\<close>. \<open>self.ai_checker\<close> is \<open>None\<close>, or the service with the cache of this
  worker.
\<close>

definition run_ai_filtering ::
  "(classifier \<times> cache) option \<Rightarrow> string \<Rightarrow> nat \<Rightarrow> store \<Rightarrow> (classifier \<times> cache) option \<times> store" where
  "run_ai_filtering ai_checker pid now st =
     (case ai_checker of
        None \<Rightarrow> (None, st)
      | Some (service, c) \<Rightarrow>
          (let tenders_to_filter = get_tenders_for_ai_filtering pid st in
           if tenders_to_filter = [] then (ai_checker, st)
           else (case filter_batches service pid now tenders_to_filter c st of
                   (c', st') \<Rightarrow>
                     (Some (service, c'), set_metadata pid ''ai_filtering_complete'' ''true'' st'))))"

section \<open>Phase 2: work descriptions\<close>

definition phase2_rows :: "string \<Rightarrow> store \<Rightarrow> tender_row list" where
  "phase2_rows pid st =
     filter (\<lambda>r. portal_id r = pid
                \<and> (ai_filtered r = 1 \<or> ai_filtered r = 0)
                \<and> (phase2_status r = ''pending'' \<or> phase2_status r = ''failed'')
                \<and> details_url r \<noteq> []) (tenders st)"

text \<open>\<open>get_tenders_for_phase2\<close>: id, hash, url and s_no of the selected rows.\<close>

definition get_tenders_for_phase2 :: "string \<Rightarrow> store \<Rightarrow> (nat \<times> string \<times> string \<times> string) list" where
  "get_tenders_for_phase2 pid st =
     map (\<lambda>r. (row_id r, identity_hash r, details_url r, s_no r)) (phase2_rows pid st)"

definition update_work_description :: "string \<Rightarrow> nat \<Rightarrow> string \<Rightarrow> string \<Rightarrow> string \<Rightarrow> store \<Rightarrow> store" where
  "update_work_description pid now h work_desc status st =
     st\<lparr>tenders := map (\<lambda>r. if matches pid h r
                              then r\<lparr>work_description := work_desc, phase2_status := status,
                                     updated_at := now\<rparr>
                              else r) (tenders st)\<rparr>"

definition add_failed_url :: "string \<Rightarrow> nat \<Rightarrow> string \<Rightarrow> string \<Rightarrow> store \<Rightarrow> store" where
  "add_failed_url pid tender_id url reason st =
     st\<lparr>failed_urls := failed_urls st @
          [\<lparr>fu_portal_id = pid, fu_tender_id = tender_id, fu_details_url = url,
            fu_failure_reason = reason\<rparr>]\<rparr>"

text \<open>
  The body of the loop of \<open>run_phase2\<close> for one tender. \<open>fetch\<close> is
  \<open>fetch_work_description\<close> (it catches its exceptions and always returns a string).
\<close>

definition enrich_one ::
  "(string \<Rightarrow> string) \<Rightarrow> string \<Rightarrow> nat \<Rightarrow> nat \<times> string \<times> string \<times> string \<Rightarrow> store \<Rightarrow> store" where
  "enrich_one fetch pid now tender st =
     (case tender of (tender_id, h, url, sno) \<Rightarrow>
        (let work_desc = fetch url in
         if startswith work_desc ''ERROR'' \<or> startswith work_desc ''FETCH''
            \<or> startswith work_desc ''WORK_DESCRIPTION''
         then add_failed_url pid tender_id url work_desc
                (update_work_description pid now h work_desc ''failed'' st)
         else update_work_description pid now h work_desc ''success'' st))"

definition run_phase2 :: "(string \<Rightarrow> string) \<Rightarrow> string \<Rightarrow> nat \<Rightarrow> store \<Rightarrow> store" where
  "run_phase2 fetch pid now st =
     (let tenders_todo = get_tenders_for_phase2 pid st in
      if tenders_todo = [] then st
      else set_metadata pid ''phase2_complete'' ''true''
             (foldl (\<lambda>s tender. enrich_one fetch pid now tender s) st tenders_todo))"

section \<open>The worker (IsolatedPortalScraper.run)\<close>

text \<open>
  What a worker meets outside the store: whether the navigation to the listing succeeds,
  the listing, the classification service (\<open>None\<close> when no API key is configured or the
  client library is missing), the detail pages, the clock, and whether the statistics
  query and the insert into \<open>portal_execution_log\<close> at the end of \<open>run\<close> go through.
\<close>

record world =
  nav_ok :: bool
  first_page :: listing_page
  more_pages :: "listing_page list"
  service :: "classifier option"
  fetch_page :: "string \<Rightarrow> string"
  clock :: nat
  site_url :: string
  log_ok :: bool

text \<open>The three parts of the \<open>try\<close> body of \<open>run\<close>.\<close>

definition extract_phase :: "string \<Rightarrow> world \<Rightarrow> store \<Rightarrow> store \<times> (error + nat)" where
  "extract_phase pid w st =
     (if \<not> truthy (get_metadata pid ''phase1_complete'' st) then
        (if \<not> nav_ok w then (st, Inl (Failure ''Navigation failed''))
         else (case run_phase1 pid (site_url w) (clock w) (first_page w) (more_pages w) st of
                 (st1, Inl e) \<Rightarrow> (st1, Inl e)
               | (st1, Inr (extracted, pages)) \<Rightarrow> (st1, Inr pages)))
      else (if truthy (get_metadata pid ''last_page_extracted'' st)
            then (case int_of_str (the (get_metadata pid ''last_page_extracted'' st)) of
                    Inl e \<Rightarrow> (st, Inl e)
                  | Inr pages \<Rightarrow> (st, Inr pages))
            else (st, Inr 0)))"

definition classify_phase :: "string \<Rightarrow> world \<Rightarrow> store \<Rightarrow> store" where
  "classify_phase pid w st =
     (case service w of
        None \<Rightarrow> st
      | Some svc \<Rightarrow>
          if \<not> truthy (get_metadata pid ''ai_filtering_complete'' st)
          then snd (run_ai_filtering (Some (svc, Map.empty)) pid (clock w) st)
          else st)"

definition enrich_phase :: "string \<Rightarrow> world \<Rightarrow> store \<Rightarrow> store" where
  "enrich_phase pid w st =
     (if \<not> truthy (get_metadata pid ''phase2_complete'' st)
      then run_phase2 (fetch_page w) pid (clock w) st
      else st)"

definition run_phases :: "string \<Rightarrow> world \<Rightarrow> store \<Rightarrow> store \<times> (error + nat)" where
  "run_phases pid w st =
     (case extract_phase pid w st of
        (st1, Inl e) \<Rightarrow> (st1, Inl e)
      | (st1, Inr pages) \<Rightarrow> (enrich_phase pid w (classify_phase pid w st1), Inr pages))"

text \<open>
  \<open>run\<close>. The \<open>except Exception\<close> around the phases turns every exception into the status
  \<open>error\<close>; the status and the message are written to \<open>portal_execution_log\<close> and
  returned (of the returned dict, the entries \<open>status\<close> and \<open>error\<close> are kept here). Only
  an exception of the two database calls after the \<open>try\<close> leaves \<open>run\<close>.
\<close>

record run_stats =
  rs_status :: string
  rs_error :: "string option"

definition log_execution :: "string \<Rightarrow> string \<Rightarrow> string option \<Rightarrow> store \<Rightarrow> store" where
  "log_execution pid status error_msg st =
     st\<lparr>portal_execution_log := portal_execution_log st @
          [\<lparr>ex_portal_id = pid, ex_status = status, ex_error_message = error_msg\<rparr>]\<rparr>"

definition run :: "string \<Rightarrow> world \<Rightarrow> store \<Rightarrow> store \<times> (error + run_stats)" where
  "run pid w st =
     (case run_phases pid w st of
        (st1, r) \<Rightarrow>
          (let stats = (case r of
                          Inl e \<Rightarrow> \<lparr>rs_status = ''error'', rs_error = Some (err_msg e)\<rparr>
                        | Inr pages \<Rightarrow> \<lparr>rs_status = ''success'', rs_error = None\<rparr>)
           in if log_ok w
              then (log_execution pid (rs_status stats) (rs_error stats) st1, Inr stats)
              else (st1, Inl (OperationalError ''database is locked''))))"

section \<open>The orchestrator (production_orchestrator.py)\<close>

text \<open>The keys of \<open>PORTALS\<close>, in order.\<close>

definition portals :: "string list" where
  "portals = [''WB'', ''BHEL'', ''COAL'', ''NTPC'']"

text \<open>
  \<open>run_portal_instance\<close>, the target of each worker process: the dict it returns (without
  the traceback), or the exception that leaves it. Its \<open>except Exception\<close> covers the
  lookup in \<open>PORTALS\<close> and the whole of \<open>run\<close>.
\<close>

record portal_result =
  pr_portal_id :: string
  pr_status :: string
  pr_error :: "string option"
  pr_stats :: "run_stats option"

definition run_portal_instance ::
  "string \<Rightarrow> world \<Rightarrow> store \<Rightarrow> store \<times> (error + portal_result)" where
  "run_portal_instance pid w st =
     (if pid \<notin> set portals
      then (st, Inr \<lparr>pr_portal_id = pid, pr_status = ''error'',
                      pr_error = Some (err_msg (KeyError pid)), pr_stats = None\<rparr>)
      else (case run pid w st of
              (st1, Inl e) \<Rightarrow>
                (st1, Inr \<lparr>pr_portal_id = pid, pr_status = ''error'',
                           pr_error = Some (err_msg e), pr_stats = None\<rparr>)
            | (st1, Inr result) \<Rightarrow>
                (st1, Inr \<lparr>pr_portal_id = pid, pr_status = ''success'',
                           pr_error = None, pr_stats = Some result\<rparr>)))"

text \<open>
  The exit code of a \<open>multiprocessing.Process\<close> that runs to its end: 0 when the target
  returns, 1 when an exception leaves it.
\<close>

definition exitcode :: "error + portal_result \<Rightarrow> int" where
  "exitcode r = (case r of Inr res \<Rightarrow> 0 | Inl e \<Rightarrow> 1)"

text \<open>
  The workers are started in the order of \<open>PORTALS\<close>; each works on its own rows of the
  shared database. The result lists every process with the exit code it ends with.
\<close>

fun start_processes ::
  "(string \<Rightarrow> world) \<Rightarrow> string list \<Rightarrow> store \<Rightarrow> store \<times> (string \<times> int) list" where
  "start_processes worlds [] st = (st, [])"
| "start_processes worlds (pid # rest) st =
     (case run_portal_instance pid (worlds pid) st of
        (st1, r) \<Rightarrow>
          (case start_processes worlds rest st1 of
             (st2, procs) \<Rightarrow> (st2, (pid, exitcode r) # procs)))"

text \<open>
  One pass of the \<open>for\<close> loop inside the monitoring loop: a process that is no longer
  alive and not yet listed is listed as completed when its exit code is 0, as failed
  otherwise. \<open>alive\<close> holds the portals whose process is alive during the pass.
\<close>

fun sweep ::
  "(string \<times> int) list \<Rightarrow> string list \<Rightarrow> string list \<Rightarrow> (string \<times> int) list
   \<Rightarrow> string list \<times> (string \<times> int) list" where
  "sweep [] alive completed failed = (completed, failed)"
| "sweep ((pid, code) # procs) alive completed failed =
     (if pid \<notin> set alive \<and> pid \<notin> set (completed @ map fst failed)
      then (if code = 0 then sweep procs alive (completed @ [pid]) failed
            else sweep procs alive completed (failed @ [(pid, code)]))
      else sweep procs alive completed failed)"

text \<open>
  \<open>while any(p['process'].is_alive() for p in processes)\<close>, one entry of the schedule per
  pass; when the schedule is used up every process has ended.
\<close>

fun monitor ::
  "(string \<times> int) list \<Rightarrow> string list list \<Rightarrow> string list \<Rightarrow> (string \<times> int) list
   \<Rightarrow> string list \<times> (string \<times> int) list" where
  "monitor procs [] completed failed = (completed, failed)"
| "monitor procs (alive # later) completed failed =
     (if list_ex (\<lambda>p. fst p \<in> set alive) procs
      then (case sweep procs alive completed failed of
              (completed', failed') \<Rightarrow> monitor procs later completed' failed')
      else (completed, failed))"

text \<open>\<open>run_all_portals\<close>: the store afterwards, and the lists \<open>completed\<close> and \<open>failed\<close>.\<close>

definition run_all_portals ::
  "(string \<Rightarrow> world) \<Rightarrow> string list list \<Rightarrow> store
   \<Rightarrow> store \<times> string list \<times> (string \<times> int) list" where
  "run_all_portals worlds schedule st =
     (case start_processes worlds portals st of
        (st1, procs) \<Rightarrow> (st1, monitor procs schedule [] []))"

text \<open>The exit code of the orchestrator: \<open>exit(1)\<close> if \<open>results['failed']\<close>, else \<open>exit(0)\<close>.\<close>

definition main_exit_code :: "(string \<Rightarrow> world) \<Rightarrow> string list list \<Rightarrow> store \<Rightarrow> int" where
  "main_exit_code worlds schedule st =
     (case run_all_portals worlds schedule st of
        (st1, completed, failed) \<Rightarrow> if failed \<noteq> [] then 1 else 0)"

section \<open>Properties of the worker and the orchestrator\<close>

subsection \<open>Properties of the classification\<close>

text \<open>What \<open>mark_batch\<close> does to one row: the marks of the batch, in order.\<close>

fun mark_row :: "string \<Rightarrow> nat \<Rightarrow> (string \<rightharpoonup> bool) \<Rightarrow> (string \<times> string) list \<Rightarrow> tender_row \<Rightarrow> tender_row" where
  "mark_row pid now results [] r = r"
| "mark_row pid now results ((h, t) # rest) r =
     mark_row pid now results rest
       (if matches pid h r
        then r\<lparr>ai_filtered := (if \<not> (case results t of None \<Rightarrow> False | Some b \<Rightarrow> b) then 1 else - 1),
               updated_at := now\<rparr>
        else r)"

lemma mark_batch_rows:
  "tenders (mark_batch pid now results batch st) = map (mark_row pid now results batch) (tenders st)"
proof (induction batch arbitrary: st)
  case Nil
  show ?case by (simp add: map_idI)
next
  case (Cons a batch)
  obtain h t where a: "a = (h, t)" by (cases a)
  show ?case unfolding a by (simp add: Cons.IH mark_ai_filtered_def)
qed


lemma mark_row_key:
  "portal_id (mark_row pid now results batch r) = portal_id r
   \<and> identity_hash (mark_row pid now results batch r) = identity_hash r"
  by (induction batch arbitrary: r) auto

lemma mark_row_matches: "matches pid' h (mark_row pid now results batch r) = matches pid' h r"
  by (simp add: matches_def mark_row_key)

lemma mark_row_unnamed:
  "\<forall>(h, t) \<in> set batch. \<not> matches pid h r \<Longrightarrow> mark_row pid now results batch r = r"
  by (induction batch arbitrary: r) auto


lemma mark_row_named:
  assumes "distinct (map fst batch)" "(h, t) \<in> set batch" "matches pid h r"
  shows "ai_filtered (mark_row pid now results batch r)
         = (if (case results t of None \<Rightarrow> False | Some b \<Rightarrow> b) then - 1 else 1)"
  using assms
proof (induction batch arbitrary: r)
  case Nil
  then show ?case by simp
next
  case (Cons a batch)
  obtain h0 t0 where a: "a = (h0, t0)" by (cases a)
  show ?case
  proof (cases "h0 = h")
    case True
    with Cons.prems a have t: "t0 = t" and nin: "h \<notin> fst ` set batch"
      by (auto simp: image_iff)
    let ?r1 = "r\<lparr>ai_filtered := (if \<not> (case results t of None \<Rightarrow> False | Some b \<Rightarrow> b) then 1 else - 1),
               updated_at := now\<rparr>"
    have "\<forall>(h', t') \<in> set batch. \<not> matches pid h' ?r1"
      using nin Cons.prems(3) by (auto simp: matches_def image_iff)
    from mark_row_unnamed[OF this] have "mark_row pid now results batch ?r1 = ?r1" .
    with True t a Cons.prems(3) show ?thesis by simp
  next
    case False
    with Cons.prems a have in_rest: "(h, t) \<in> set batch" and d: "distinct (map fst batch)" by auto
    from False Cons.prems(3) have "\<not> matches pid h0 r" by (auto simp: matches_def)
    with a Cons.IH[OF d in_rest Cons.prems(3)] show ?thesis by simp
  qed
qed

lemma store_reply_keeps: "c t = Some b \<Longrightarrow> t \<notin> set ts \<Longrightarrow> store_reply results i ts c t = Some b"
  by (induction ts arbitrary: c i) auto

lemma check_titles_keeps:
  assumes "c t = Some b"
  shows "fst (check_titles svc c titles) t = Some b"
proof -
  have "t \<notin> set (filter (\<lambda>t. c t = None) titles)" using assms by simp
  with assms show ?thesis
    by (auto simp: check_titles_def Let_def map_add_def store_reply_keeps split: sum.splits)
qed

lemma filter_batch_keeps:
  "c t = Some b \<Longrightarrow> fst (filter_batch svc pid now batch c st) t = Some b"
  using check_titles_keeps[of c t b svc "map snd batch"]
  by (cases "check_titles svc c (map snd batch)") (simp add: filter_batch_def)

lemma filter_batches_keeps:
  "c t = Some b \<Longrightarrow> fst (filter_batches svc pid now items c st) t = Some b"
proof (induction svc pid now items c st rule: filter_batches.induct)
  case (1 service pid now items c st)
  show ?case
  proof (cases "items = []")
    case True
    with "1.prems" show ?thesis by simp
  next
    case False
    obtain c' st' where fb: "filter_batch service pid now (take batch_size items) c st = (c', st')"
      by (cases "filter_batch service pid now (take batch_size items) c st")
    from filter_batch_keeps[of c t b service pid now "take batch_size items" st] "1.prems" fb
    have "c' t = Some b" by simp
    from "1.IH"[OF False fb[symmetric] this] False fb show ?thesis by simp
  qed
qed

lemma check_titles_failed:
  assumes "svc (filter (\<lambda>t. c t = None) titles) = Inl e"
      and "filter (\<lambda>t. c t = None) titles \<noteq> []"
  shows "check_titles svc c titles =
           (c ++ (\<lambda>t. if t \<in> set titles \<and> c t = None then Some True else None),
            \<lambda>t. if t \<in> set titles then Some (case c t of None \<Rightarrow> True | Some b \<Rightarrow> b) else None)"
  using assms
  by (auto simp: check_titles_def Let_def map_add_def fun_eq_iff split: option.splits)

text \<open>
  Claim C10, as amended. Let the service raise on the uncached titles of a batch (there
  is at least one), the hashes of the batch being distinct, as they are in the table.
  Then for every record of the batch: \<open>check_titles\<close> returns for its title the value
  cached before the call, and \<open>True\<close> when the title was not cached; that value is in the
  cache afterwards; the record is marked \<open>- 1\<close> (rejected) when that value is \<open>True\<close>, so
  whenever its title was not cached before, and \<open>1\<close> (kept) when its title was cached as
  not meaningful; the cache keeps the value through every later batch, and the title is
  in no later list of uncached titles: it is not submitted again.
\<close>

theorem failed_batch_fallback:
  assumes fail: "svc (filter (\<lambda>t. c t = None) (map snd batch)) = Inl e"
      and unc: "filter (\<lambda>t. c t = None) (map snd batch) \<noteq> []"
      and dist: "distinct (map fst batch)"
  shows "\<forall>(h, t) \<in> set batch.
           snd (check_titles svc c (map snd batch)) t = Some (case c t of None \<Rightarrow> True | Some b \<Rightarrow> b)
         \<and> fst (filter_batch svc pid now batch c st) t = Some (case c t of None \<Rightarrow> True | Some b \<Rightarrow> b)
         \<and> (\<forall>r \<in> set (tenders (snd (filter_batch svc pid now batch c st))).
               matches pid h r \<longrightarrow>
               ai_filtered r = (if (case c t of None \<Rightarrow> True | Some b \<Rightarrow> b) then - 1 else 1))
         \<and> (\<forall>items2 st2 titles2.
               t \<notin> set (filter (\<lambda>x. fst (filter_batches svc pid now items2
                                          (fst (filter_batch svc pid now batch c st)) st2) x = None)
                            titles2))
         \<and> (\<forall>items2 st2.
               fst (filter_batches svc pid now items2 (fst (filter_batch svc pid now batch c st)) st2) t
               = Some (case c t of None \<Rightarrow> True | Some b \<Rightarrow> b))"
proof -
  let ?results = "\<lambda>t. if t \<in> set (map snd batch)
                       then Some (case c t of None \<Rightarrow> True | Some b \<Rightarrow> b) else None"
  let ?c' = "c ++ (\<lambda>t. if t \<in> set (map snd batch) \<and> c t = None then Some True else None)"
  note ct = check_titles_failed[of svc c "map snd batch" e, OF fail unc]
  have fb: "filter_batch svc pid now batch c st = (?c', mark_batch pid now ?results batch st)"
    by (simp add: filter_batch_def ct)
  have "snd (check_titles svc c (map snd batch)) t = Some (case c t of None \<Rightarrow> True | Some b \<Rightarrow> b)
         \<and> fst (filter_batch svc pid now batch c st) t = Some (case c t of None \<Rightarrow> True | Some b \<Rightarrow> b)
         \<and> (\<forall>r \<in> set (tenders (snd (filter_batch svc pid now batch c st))).
               matches pid h r \<longrightarrow>
               ai_filtered r = (if (case c t of None \<Rightarrow> True | Some b \<Rightarrow> b) then - 1 else 1))
         \<and> (\<forall>items2 st2 titles2.
               t \<notin> set (filter (\<lambda>x. fst (filter_batches svc pid now items2
                                          (fst (filter_batch svc pid now batch c st)) st2) x = None)
                            titles2))
         \<and> (\<forall>items2 st2.
               fst (filter_batches svc pid now items2 (fst (filter_batch svc pid now batch c st)) st2) t
               = Some (case c t of None \<Rightarrow> True | Some b \<Rightarrow> b))"
    if ht: "(h, t) \<in> set batch" for h t
  proof -
    from ht have tin: "t \<in> set (map snd batch)" by force
    then have res: "?results t = Some (case c t of None \<Rightarrow> True | Some b \<Rightarrow> b)" by simp
    from tin have c't: "?c' t = Some (case c t of None \<Rightarrow> True | Some b \<Rightarrow> b)"
      by (auto simp: map_add_def split: option.splits)
    have rows: "ai_filtered r = (if (case c t of None \<Rightarrow> True | Some b \<Rightarrow> b) then - 1 else 1)"
      if r: "r \<in> set (tenders (snd (filter_batch svc pid now batch c st)))" and m: "matches pid h r" for r
    proof -
      from r obtain r0 where r0: "r = mark_row pid now ?results batch r0"
        by (auto simp: fb mark_batch_rows)
      with m have "matches pid h r0" by (simp add: mark_row_matches)
      from mark_row_named[OF dist ht this, of now ?results] res r0 show ?thesis by simp
    qed
    have keeps: "fst (filter_batches svc pid now items2 ?c' st2) t
               = Some (case c t of None \<Rightarrow> True | Some b \<Rightarrow> b)" for items2 st2
      by (rule filter_batches_keeps[of ?c' t "case c t of None \<Rightarrow> True | Some b \<Rightarrow> b", OF c't])
    have c1: "snd (check_titles svc c (map snd batch)) t
                = Some (case c t of None \<Rightarrow> True | Some b \<Rightarrow> b)"
      unfolding ct snd_conv by (rule res)
    have c2: "fst (filter_batch svc pid now batch c st) t
                = Some (case c t of None \<Rightarrow> True | Some b \<Rightarrow> b)"
      unfolding fb fst_conv by (rule c't)
    have c5: "fst (filter_batches svc pid now items2 (fst (filter_batch svc pid now batch c st)) st2) t
               = Some (case c t of None \<Rightarrow> True | Some b \<Rightarrow> b)" for items2 st2
      unfolding fb fst_conv by (rule keeps)
    have c4: "t \<notin> set (filter (\<lambda>x. fst (filter_batches svc pid now items2
                                          (fst (filter_batch svc pid now batch c st)) st2) x = None)
                            titles2)"
      for items2 st2 titles2
      using c5[of items2 st2] by (simp del: filter_batches.simps)
    from c1 c2 rows c4 c5 show ?thesis by blast
  qed
  then show ?thesis by blast
qed

text \<open>Rows with a given hash and title, and services that fail.\<close>

definition titled_row :: "string \<Rightarrow> string \<Rightarrow> tender_row" where
  "titled_row h ti = (insert_row ''WB'' 5 (example_tender h ''1'') [])\<lparr>title := ti\<rparr>"

definition failing_service :: classifier where
  "failing_service uncached = Inl (Failure ''service unavailable'')"

definition flaky_service :: classifier where
  "flaky_service uncached =
     (if uncached = [''Road''] then Inr [1 \<mapsto> ''unmeaningful'']
      else Inl (Failure ''service unavailable''))"

lemma titled_row_simps:
  "portal_id (titled_row h ti) = ''WB''" "identity_hash (titled_row h ti) = h"
  "ai_filtered (titled_row h ti) = 0" "title (titled_row h ti) = ti"
  by (simp_all add: titled_row_def insert_row_def example_tender_get)

text \<open>Two unclassified rows with uncached titles, and a service that is down.\<close>

theorem failed_batch_fallback_witness:
  "map ai_filtered
     (tenders (snd (filter_batch failing_service ''WB'' 6 [(''h1'', ''Road''), (''h2'', ''Bridge'')] Map.empty
        (empty_store\<lparr>tenders := [titled_row ''h1'' ''Road'', titled_row ''h2'' ''Bridge'']\<rparr>))))
   = [- 1, - 1]"
proof -
  let ?st = "empty_store\<lparr>tenders := [titled_row ''h1'' ''Road'', titled_row ''h2'' ''Bridge'']\<rparr>"
  let ?batch = "[(''h1'', ''Road''), (''h2'', ''Bridge'')]"
  have fail: "failing_service (filter (\<lambda>t. Map.empty t = None) (map snd ?batch))
                = Inl (Failure ''service unavailable'')"
    by (simp add: failing_service_def)
  have unc: "filter (\<lambda>t. (Map.empty :: cache) t = None) (map snd ?batch) \<noteq> []" by simp
  have dist: "distinct (map fst ?batch)" by simp
  note fallback = failed_batch_fallback[of failing_service Map.empty ?batch
      "Failure ''service unavailable''", OF fail unc dist, of "''WB''" 6 ?st]
  have rows: "tenders (snd (filter_batch failing_service ''WB'' 6 ?batch Map.empty ?st))
      = [mark_row ''WB'' 6 (snd (check_titles failing_service Map.empty (map snd ?batch))) ?batch (titled_row ''h1'' ''Road''),
         mark_row ''WB'' 6 (snd (check_titles failing_service Map.empty (map snd ?batch))) ?batch (titled_row ''h2'' ''Bridge'')]"
    by (cases "check_titles failing_service Map.empty (map snd ?batch)")
       (simp add: filter_batch_def mark_batch_rows empty_store_def del: mark_batch.simps)
  have m: "matches ''WB'' ''h1'' (mark_row ''WB'' 6 res ?batch (titled_row ''h1'' ''Road''))"
    "matches ''WB'' ''h2'' (mark_row ''WB'' 6 res ?batch (titled_row ''h2'' ''Bridge''))" for res
    by (simp_all only: mark_row_matches) (simp_all add: matches_def titled_row_simps)
  have in1: "(''h1'', ''Road'') \<in> set ?batch" and in2: "(''h2'', ''Bridge'') \<in> set ?batch"
    by simp_all
  from bspec[OF fallback in1] have
    "\<forall>r \<in> set (tenders (snd (filter_batch failing_service ''WB'' 6 ?batch Map.empty ?st))).
        matches ''WB'' ''h1'' r \<longrightarrow> ai_filtered r = - 1"
    by (simp only: prod.case option.case if_True simp_thms) blast
  moreover from bspec[OF fallback in2] have
    "\<forall>r \<in> set (tenders (snd (filter_batch failing_service ''WB'' 6 ?batch Map.empty ?st))).
        matches ''WB'' ''h2'' r \<longrightarrow> ai_filtered r = - 1"
    by (simp only: prod.case option.case if_True simp_thms) blast
  ultimately show ?thesis
    unfolding rows using m by (simp only: list.set list.map insert_iff ball_simps simp_thms)
qed

text \<open>
  The claim as stated fails on a batch holding a title that an earlier batch cached as
  not meaningful. The service classifies \<open>Road\<close> of the first batch as unmeaningful and
  raises on the second batch, whose only uncached title is \<open>Bridge\<close>: the record \<open>h1\<close> of
  the failed batch, titled \<open>Road\<close>, is marked \<open>1\<close> (kept), not \<open>- 1\<close>.
\<close>

theorem cached_title_of_failed_batch_is_kept:
  "flaky_service [''Bridge''] = Inl (Failure ''service unavailable'')
   \<and> map ai_filtered
     (tenders (snd (filter_batch flaky_service ''WB'' 7 [(''h1'', ''Road''), (''h2'', ''Bridge'')]
        (fst (filter_batch flaky_service ''WB'' 6 [(''h0'', ''Road'')] Map.empty
           (empty_store\<lparr>tenders := [titled_row ''h0'' ''Road'', titled_row ''h1'' ''Road'',
                                     titled_row ''h2'' ''Bridge'']\<rparr>)))
        (snd (filter_batch flaky_service ''WB'' 6 [(''h0'', ''Road'')] Map.empty
           (empty_store\<lparr>tenders := [titled_row ''h0'' ''Road'', titled_row ''h1'' ''Road'',
                                     titled_row ''h2'' ''Bridge'']\<rparr>))))))
   = [1, 1, - 1]"
  by (simp add: flaky_service_def filter_batch_def check_titles_def mark_ai_filtered_def
      matches_def titled_row_simps empty_store_def Let_def map_add_def)

subsection \<open>Properties of the phases\<close>


















text \<open>A service that finds the first title of a request meaningful and the second not, and a
  store left after phase 1.\<close>

definition sample_service :: classifier where
  "sample_service uncached = Inr [1 \<mapsto> ''meaningful'', 2 \<mapsto> ''unmeaningful'']"


definition sample_world :: world where
  "sample_world = \<lparr>nav_ok = True, first_page = sample_page (Inr None), more_pages = [],
                    service = Some sample_service, fetch_page = (\<lambda>url. ''Repair of road''),
                    clock = 9, site_url = ''https://wbtenders.gov.in'', log_ok = True\<rparr>"




subsection \<open>Properties of the exit codes\<close>

lemma run_portal_instance_returns:
  "\<exists>res. snd (run_portal_instance pid w st) = Inr res"
  by (auto simp: run_portal_instance_def split: prod.splits sum.splits)

lemma exitcode_zero: "exitcode (snd (run_portal_instance pid w st)) = 0"
  using run_portal_instance_returns[of pid w st] by (auto simp: exitcode_def)

lemma start_processes_codes:
  "snd (start_processes worlds pids st) = map (\<lambda>pid. (pid, 0)) pids"
proof (induction pids arbitrary: st)
  case Nil
  show ?case by simp
next
  case (Cons pid rest)
  obtain st1 r where r: "run_portal_instance pid (worlds pid) st = (st1, r)"
    by (cases "run_portal_instance pid (worlds pid) st")
  from exitcode_zero[of pid "worlds pid" st] r have z: "exitcode r = 0" by simp
  from Cons.IH[of st1] r z show ?case
    by (cases "start_processes worlds rest st1") simp
qed

lemma sweep_no_failed:
  "list_all (\<lambda>p. snd p = 0) procs \<Longrightarrow> snd (sweep procs alive completed []) = []"
  by (induction procs arbitrary: completed) auto

lemma monitor_no_failed:
  "list_all (\<lambda>p. snd p = 0) procs \<Longrightarrow> snd (monitor procs schedule completed []) = []"
proof (induction schedule arbitrary: completed)
  case Nil
  show ?case by simp
next
  case (Cons alive later)
  from sweep_no_failed[OF Cons.prems, of alive completed]
  obtain c where "sweep procs alive completed [] = (c, [])"
    by (cases "sweep procs alive completed []") auto
  with Cons.IH[OF Cons.prems, of c] show ?case by simp
qed

text \<open>
  A portal whose site cannot be navigated, with the other portals working, and a schedule
  of the monitoring loop: all four processes alive, then \<open>WB\<close> ended, then only \<open>NTPC\<close>
  alive, then none.
\<close>

definition unreachable_site :: world where
  "unreachable_site = sample_world\<lparr>nav_ok := False\<rparr>"

definition sample_worlds :: "string \<Rightarrow> world" where
  "sample_worlds pid = (if pid = ''WB'' then unreachable_site else sample_world)"

definition sample_schedule :: "string list list" where
  "sample_schedule = [[''WB'', ''BHEL'', ''COAL'', ''NTPC''], [''BHEL'', ''COAL'', ''NTPC''],
                      [''NTPC''], []]"

text \<open>
  Claim C7 fails on the code. The exception \<open>Navigation failed\<close> raised in the worker of
  portal \<open>WB\<close> is caught by \<open>run\<close>, which logs and returns the status \<open>error\<close>;
  \<open>run_portal_instance\<close> returns a dict with the status \<open>success\<close>, so the process ends with
  exit code 0, as it does for every portal, world and store: no exception ever leaves
  \<open>run_portal_instance\<close>. The orchestrator lists \<open>WB\<close> as completed, its list of failed
  portals is empty whatever the workers meet, and its exit code is 0.
\<close>

theorem worker_error_exits_zero:
  "snd (run ''WB'' unreachable_site empty_store)
     = Inr \<lparr>rs_status = ''error'', rs_error = Some ''Navigation failed''\<rparr>
   \<and> portal_execution_log (fst (run ''WB'' unreachable_site empty_store))
     = [\<lparr>ex_portal_id = ''WB'', ex_status = ''error'', ex_error_message = Some ''Navigation failed''\<rparr>]
   \<and> snd (run_portal_instance ''WB'' unreachable_site empty_store)
     = Inr \<lparr>pr_portal_id = ''WB'', pr_status = ''success'', pr_error = None,
            pr_stats = Some \<lparr>rs_status = ''error'', rs_error = Some ''Navigation failed''\<rparr>\<rparr>
   \<and> exitcode (snd (run_portal_instance ''WB'' unreachable_site empty_store)) = 0
   \<and> (\<forall>pid w st. exitcode (snd (run_portal_instance pid w st)) = 0)
   \<and> snd (run_all_portals sample_worlds sample_schedule empty_store)
     = ([''WB'', ''BHEL'', ''COAL''], [])
   \<and> main_exit_code sample_worlds sample_schedule empty_store = 0
   \<and> (\<forall>worlds schedule st. main_exit_code worlds schedule st = 0)"
proof -
  have phases: "run_phases ''WB'' unreachable_site empty_store
      = (empty_store, Inl (Failure ''Navigation failed''))"
    by (simp add: run_phases_def extract_phase_def unreachable_site_def sample_world_def
        empty_store_def get_metadata_def truthy_def)
  have ok: "log_ok unreachable_site" by (simp add: unreachable_site_def sample_world_def)
  have r: "run ''WB'' unreachable_site empty_store
      = (log_execution ''WB'' ''error'' (Some ''Navigation failed'') empty_store,
         Inr \<lparr>rs_status = ''error'', rs_error = Some ''Navigation failed''\<rparr>)"
    by (simp add: run_def phases ok)
  have 1: "snd (run ''WB'' unreachable_site empty_store)
     = Inr \<lparr>rs_status = ''error'', rs_error = Some ''Navigation failed''\<rparr>"
    by (simp add: r)
  have 2: "portal_execution_log (fst (run ''WB'' unreachable_site empty_store))
     = [\<lparr>ex_portal_id = ''WB'', ex_status = ''error'', ex_error_message = Some ''Navigation failed''\<rparr>]"
    unfolding r by (simp add: log_execution_def empty_store_def)
  have 3: "snd (run_portal_instance ''WB'' unreachable_site empty_store)
     = Inr \<lparr>pr_portal_id = ''WB'', pr_status = ''success'', pr_error = None,
            pr_stats = Some \<lparr>rs_status = ''error'', rs_error = Some ''Navigation failed''\<rparr>\<rparr>"
    by (simp add: run_portal_instance_def portals_def r)
  have 4: "exitcode (snd (run_portal_instance pid w st)) = 0" for pid w st
    by (rule exitcode_zero)
  have procs: "snd (start_processes worlds portals st) = map (\<lambda>pid. (pid, 0)) portals"
    for worlds st by (rule start_processes_codes)
  have 5: "snd (run_all_portals sample_worlds sample_schedule empty_store)
     = ([''WB'', ''BHEL'', ''COAL''], [])"
    using procs[of sample_worlds empty_store]
    by (cases "start_processes sample_worlds portals empty_store")
       (simp add: run_all_portals_def portals_def sample_schedule_def)
  have 6: "main_exit_code worlds schedule st = 0" for worlds schedule st
  proof -
    obtain st1 ps where sp: "start_processes worlds portals st = (st1, ps)"
      by (cases "start_processes worlds portals st")
    with procs[of worlds st] have "list_all (\<lambda>p. snd p = 0) ps"
      by (simp add: list_all_iff)
    from monitor_no_failed[OF this, of schedule "[]"] sp show ?thesis
      by (cases "monitor ps schedule [] []") (simp add: main_exit_code_def run_all_portals_def)
  qed
  from 1 2 3 4 5 6 show ?thesis by blast
qed

end
